theory Spec2Isabelle
  imports Main "HOL-Library.Signed_Division"
begin

section \<open>The tomato timer (tomato.go) as HOL functions\<close>

text \<open>
  The Go program keeps one \<open>Server\<close> value and a handful of package-level variables set
  from the command line. The variables become the record \<open>config\<close>, the \<open>Server\<close> struct
  becomes the record \<open>Server\<close>, and each method becomes a function that takes the server
  and returns the updated one. A \<open>panic\<close> is the value \<open>Inl (Panic msg)\<close>.

  Conventions of the model:
  \<^item> \<open>time.Duration\<close> is a number of nanoseconds and \<open>time.Time\<close> an instant in nanoseconds
    on the clock of the process; both are \<open>int\<close>. \<open>Time.Sub\<close> saturates at the ends of the
    64-bit range as the Go library documents it.
  \<^item> \<open>count\<close> and \<open>N\<close> are Go \<open>int\<close>s, 64 bits wide on the machines the program is
    written for (MacBooks with a touch bar). They are \<open>int\<close>s here, and \<open>s.count++\<close> is
    written with its wrap-around, \<open>go_int (count s + 1)\<close>.
  \<^item> every call of \<open>time.Now()\<close> is a field of the record \<open>reads\<close>, one field per call
    site, so a function of the model is told what each of its clock readings returns.
  \<^item> running a shell command, printing the status line and spawning the goroutine that
    pushes an update are values of type \<open>event\<close>, returned in program order. What the
    command does, and the log lines of \<open>executeCommand\<close> about it, are outside the model.
  \<^item> the functions describe one call that runs alone, and a run is a list of calls taken
    one after the other. The program itself starts the ticker and the HTTP handlers on
    goroutines of their own, over one \<open>Server\<close> and without a lock; calls that overlap are
    not described by \<open>run\<close> and are treated apart, where a property depends on them.
\<close>

subsection \<open>Package-level variables\<close>

type_synonym Mode = string
type_synonym Duration = int
type_synonym Instant = int

definition ModeWork :: Mode where "ModeWork = ''work''"
definition ModeShortBreak :: Mode where "ModeShortBreak = ''short-break''"
definition ModeLongBreak :: Mode where "ModeLongBreak = ''long-break''"

definition StateStopped :: string where "StateStopped = ''[S]''"
definition StatePaused :: string where "StatePaused = ''[P]''"
definition StateRunning :: string where "StateRunning = ''[R]''"

record config =
  N :: int
  SepColon :: string
  SepBreak :: string
  DurationWork :: Duration
  DurationShortBreak :: Duration
  DurationLongBreak :: Duration
  Icon1Data :: string
  Icon2Data :: string
  UUID :: string
  URL :: string
  Command :: string
  CommandOnStart :: string

datatype error = Panic string

subsection \<open>The type int\<close>

text \<open>The 64-bit two's complement \<open>int\<close>: \<open>go_int\<close> is the value an arithmetic result is
  stored as.\<close>

definition maxInt :: int where "maxInt = 2 ^ 63 - 1"
definition minInt :: int where "minInt = - (2 ^ 63)"

definition go_int :: "int \<Rightarrow> int" where
  "go_int i = (i + 2 ^ 63) mod 2 ^ 64 - 2 ^ 63"

subsection \<open>Package time\<close>

text \<open>The operations of the Go library on \<open>time.Time\<close> and \<open>time.Duration\<close> that the
  program calls, as the library documents them: \<open>Add\<close>, \<open>After\<close>, and \<open>Sub\<close>, which returns
  the largest or the smallest duration when the difference does not fit.\<close>

definition Second :: Duration where "Second = 1000000000"
definition Minute :: Duration where "Minute = 60 * Second"

definition maxDuration :: Duration where "maxDuration = 2 ^ 63 - 1"
definition minDuration :: Duration where "minDuration = - (2 ^ 63)"

definition time_Add :: "Instant \<Rightarrow> Duration \<Rightarrow> Instant" where
  "time_Add u x = u + x"

definition time_Sub :: "Instant \<Rightarrow> Instant \<Rightarrow> Duration" where
  "time_Sub u v =
     (if u - v < minDuration then minDuration
      else if maxDuration < u - v then maxDuration
      else u - v)"

definition time_After :: "Instant \<Rightarrow> Instant \<Rightarrow> bool" where
  "time_After u v = (v < u)"

subsection \<open>fmt.Sprintf verbs used by the program\<close>

definition digit_char :: "nat \<Rightarrow> char" where
  "digit_char k = ''0123456789'' ! k"

fun digits :: "nat \<Rightarrow> string" where
  "digits k = (if k < 10 then [digit_char k] else digits (k div 10) @ [digit_char (k mod 10)])"

declare digits.simps [simp del]

definition zero_pad :: "nat \<Rightarrow> string \<Rightarrow> string" where
  "zero_pad w str = replicate (w - length str) (CHR ''0'') @ str"

text \<open>The verb \<open>%0wd\<close>: the sign first, then zeros up to the width, then the digits.
  \<open>%d\<close> is the width 0.\<close>

definition fmt_0d :: "nat \<Rightarrow> int \<Rightarrow> string" where
  "fmt_0d w i =
     (if i < 0 then CHR ''-'' # zero_pad (w - 1) (digits (nat (- i)))
      else zero_pad w (digits (nat i)))"

subsection \<open>Mode\<close>

definition Mode_Duration :: "config \<Rightarrow> Mode \<Rightarrow> error + Duration" where
  "Mode_Duration cfg m =
     (if m = ModeWork then Inr (DurationWork cfg)
      else if m = ModeShortBreak then Inr (DurationShortBreak cfg)
      else if m = ModeLongBreak then Inr (DurationLongBreak cfg)
      else Inl (Panic ''unexpected''))"

definition Mode_Sep :: "config \<Rightarrow> Mode \<Rightarrow> error + string" where
  "Mode_Sep cfg m =
     (if m = ModeWork then Inr (SepColon cfg)
      else if m = ModeShortBreak \<or> m = ModeLongBreak then Inr (SepBreak cfg)
      else Inl (Panic ''unexpected''))"

subsection \<open>The package-level formatTimer\<close>

definition formatTimer :: "Duration \<Rightarrow> string \<Rightarrow> string" where
  "formatTimer d0 sep =
     (let d1 = (if d0 < 0 then 0 else d0);
          m = d1 sdiv Minute;
          s = (d1 smod Minute) sdiv Second;
          m1 = (if 99 < m then 99 else m)
      in fmt_0d 2 m1 @ sep @ fmt_0d 2 s)"

subsection \<open>Server\<close>

record Server =
  mode :: Mode
  state :: string
  t :: Instant
  d :: Duration
  count :: int

text \<open>The zero \<open>time.Time\<close> of a fresh server is the instant 0 here; the program reads
  \<open>t\<close> only in the running state, after \<open>ActionStart\<close> has set it.\<close>

definition NewServer :: Server where
  "NewServer = \<lparr>mode = ModeWork, state = StateStopped, t = 0, d = 0, count = 0\<rparr>"

record reads =
  now_start :: Instant
  now_after :: Instant
  now_log :: Instant
  now_timer :: Instant
  now_reply :: Instant

datatype event = Exec string | LogPrint string | Push string string

datatype response =
    NotFound
  | Body string
  | StatusJSON Mode string string int int

definition nextMode :: "config \<Rightarrow> Server \<Rightarrow> error + Server" where
  "nextMode cfg s =
     (if mode s = ModeShortBreak \<or> mode s = ModeLongBreak then
        Inr ((if mode s = ModeLongBreak then s\<lparr>count := 0\<rparr> else s)\<lparr>mode := ModeWork\<rparr>)
      else if mode s = ModeWork then
        (let s1 = s\<lparr>count := go_int (count s + 1)\<rparr>
         in if count s1 < N cfg then Inr (s1\<lparr>mode := ModeShortBreak\<rparr>)
            else Inr (s1\<lparr>mode := ModeLongBreak\<rparr>))
      else Inl (Panic ''unexpected''))"

definition executeCommand :: "config \<Rightarrow> event list" where
  "executeCommand cfg = (if Command cfg = [] then [] else [Exec (Command cfg)])"

definition executeCommandOnStart :: "config \<Rightarrow> event list" where
  "executeCommandOnStart cfg =
     (if CommandOnStart cfg = [] then [] else [Exec (CommandOnStart cfg)])"

definition Server_formatTimer :: "config \<Rightarrow> Instant \<Rightarrow> Server \<Rightarrow> error + string" where
  "Server_formatTimer cfg now s =
     (if state s = StateStopped then
        (case Mode_Duration cfg (mode s) of
           Inl e \<Rightarrow> Inl e
         | Inr dur \<Rightarrow>
             (case Mode_Sep cfg (mode s) of
                Inl e \<Rightarrow> Inl e
              | Inr sep \<Rightarrow> Inr (formatTimer dur sep)))
      else if state s = StatePaused then
        (case Mode_Sep cfg (mode s) of
           Inl e \<Rightarrow> Inl e
         | Inr sep \<Rightarrow> Inr (formatTimer (d s) sep))
      else if state s = StateRunning then
        (case Mode_Sep cfg (mode s) of
           Inl e \<Rightarrow> Inl e
         | Inr sep \<Rightarrow> Inr (formatTimer (time_Sub (t s) now) sep))
      else Inl (Panic ''unexpected''))"

definition formatStatus :: "config \<Rightarrow> Instant \<Rightarrow> Server \<Rightarrow> error + string" where
  "formatStatus cfg now s =
     (case Server_formatTimer cfg now s of
        Inl e \<Rightarrow> Inl e
      | Inr timer \<Rightarrow>
          Inr (state s @ '' '' @ timer @ '' '' @ fmt_0d 0 (count s) @ ''/'' @
               fmt_0d 0 (N cfg) @ '' '' @ mode s))"

definition formatStatusJSON :: "config \<Rightarrow> Instant \<Rightarrow> Server \<Rightarrow> error + response" where
  "formatStatusJSON cfg now s =
     (case Server_formatTimer cfg now s of
        Inl e \<Rightarrow> Inl e
      | Inr timer \<Rightarrow> Inr (StatusJSON (mode s) (state s) timer (count s) (N cfg)))"

definition outputStatus ::
  "config \<Rightarrow> bool \<Rightarrow> reads \<Rightarrow> Server \<Rightarrow> error + (string \<times> event list)" where
  "outputStatus cfg output clk s =
     (case (if output then
              (case formatStatus cfg (now_log clk) s of
                 Inl e \<Rightarrow> Inl e
               | Inr line \<Rightarrow> Inr [LogPrint line])
            else Inr []) of
        Inl e \<Rightarrow> Inl e
      | Inr logged \<Rightarrow>
          (case Server_formatTimer cfg (now_timer clk) s of
             Inl e \<Rightarrow> Inl e
           | Inr str \<Rightarrow>
               Inr (str,
                    logged @
                    (if URL cfg \<noteq> [] then
                       [Push str (if mode s \<noteq> ModeWork then Icon2Data cfg else Icon1Data cfg)]
                     else []))))"

definition RefreshStatus ::
  "config \<Rightarrow> bool \<Rightarrow> reads \<Rightarrow> Server \<Rightarrow> error + (string \<times> event list \<times> Server)" where
  "RefreshStatus cfg output clk s =
     (case (if state s = StateRunning \<and> time_After (now_after clk) (t s) then
              (case nextMode cfg (s\<lparr>state := StateStopped\<rparr>) of
                 Inl e \<Rightarrow> Inl e
               | Inr s1 \<Rightarrow> Inr (True, executeCommand cfg, s1))
            else Inr (output, [], s)) of
        Inl e \<Rightarrow> Inl e
      | Inr (output1, evs, s1) \<Rightarrow>
          (case outputStatus cfg output1 clk s1 of
             Inl e \<Rightarrow> Inl e
           | Inr (str, evs1) \<Rightarrow> Inr (str, evs @ evs1, s1)))"

subsection \<open>HTTP handlers\<close>

text \<open>A handler gets the request's method (and, for \<open>/status\<close>, whether the \<open>Accept\<close>
  header is \<open>application/json\<close>) and returns the response written, the events and the
  server.\<close>

type_synonym outcome = "error + (response \<times> event list \<times> Server)"

definition Status :: "config \<Rightarrow> string \<Rightarrow> bool \<Rightarrow> reads \<Rightarrow> Server \<Rightarrow> outcome" where
  "Status cfg meth accept_json clk s =
     (if meth \<noteq> ''GET'' then Inr (NotFound, [], s)
      else
        (case RefreshStatus cfg True clk s of
           Inl e \<Rightarrow> Inl e
         | Inr (str, evs, s1) \<Rightarrow>
             (if accept_json then
                (case formatStatusJSON cfg (now_reply clk) s1 of
                   Inl e \<Rightarrow> Inl e
                 | Inr js \<Rightarrow> Inr (js, evs, s1))
              else Inr (Body str, evs, s1))))"

definition Time :: "config \<Rightarrow> string \<Rightarrow> reads \<Rightarrow> Server \<Rightarrow> outcome" where
  "Time cfg meth clk s =
     (if meth \<noteq> ''GET'' then Inr (NotFound, [], s)
      else
        (case RefreshStatus cfg True clk s of
           Inl e \<Rightarrow> Inl e
         | Inr (str, evs, s1) \<Rightarrow> Inr (Body str, evs, s1)))"

definition ActionStart :: "config \<Rightarrow> string \<Rightarrow> reads \<Rightarrow> Server \<Rightarrow> outcome" where
  "ActionStart cfg meth clk s =
     (if meth \<noteq> ''POST'' then Inr (NotFound, [], s)
      else
        (case (if state s = StateStopped then
                 (case Mode_Duration cfg (mode s) of
                    Inl e \<Rightarrow> Inl e
                  | Inr dur \<Rightarrow>
                      Inr (executeCommandOnStart cfg,
                           s\<lparr>t := time_Add (now_start clk) dur, state := StateRunning\<rparr>))
               else if state s = StatePaused then
                 Inr (executeCommandOnStart cfg,
                      s\<lparr>t := time_Add (now_start clk) (d s), state := StateRunning\<rparr>)
               else if state s = StateRunning then
                 (case RefreshStatus cfg True clk s of
                    Inl e \<Rightarrow> Inl e
                  | Inr (str, evs, s1) \<Rightarrow>
                      Inr (evs,
                           if state s1 = StateRunning
                           then s1\<lparr>d := time_Sub (t s1) (now_start clk), state := StatePaused\<rparr>
                           else s1))
               else Inr ([], s)) of
           Inl e \<Rightarrow> Inl e
         | Inr (evs, s2) \<Rightarrow>
             (case Server_formatTimer cfg (now_reply clk) s2 of
                Inl e \<Rightarrow> Inl e
              | Inr str \<Rightarrow> Inr (Body str, evs, s2))))"

definition ActionStop :: "config \<Rightarrow> string \<Rightarrow> reads \<Rightarrow> Server \<Rightarrow> outcome" where
  "ActionStop cfg meth clk s =
     (if meth \<noteq> ''POST'' then Inr (NotFound, [], s)
      else
        (let s1 =
           (if state s = StateRunning \<or> state s = StatePaused then s\<lparr>state := StateStopped\<rparr>
            else if state s = StateStopped then
              (if mode s = ModeWork then
                 (if count s < N cfg then s\<lparr>mode := ModeShortBreak\<rparr>
                  else s\<lparr>mode := ModeLongBreak\<rparr>)
               else if mode s = ModeShortBreak then s\<lparr>mode := ModeWork\<rparr>
               else if mode s = ModeLongBreak then s\<lparr>mode := ModeShortBreak\<rparr>
               else s)
            else s)
         in (case RefreshStatus cfg True clk s1 of
               Inl e \<Rightarrow> Inl e
             | Inr (str, evs, s2) \<Rightarrow> Inr (Body str, evs, s2))))"

text \<open>The ticker goroutine of \<open>main\<close> calls \<open>RefreshStatus(false)\<close> and drops the string.\<close>

definition tick :: "config \<Rightarrow> reads \<Rightarrow> Server \<Rightarrow> error + (event list \<times> Server)" where
  "tick cfg clk s =
     (case RefreshStatus cfg False clk s of
        Inl e \<Rightarrow> Inl e
      | Inr (str, evs, s1) \<Rightarrow> Inr (evs, s1))"

subsection \<open>Runs of the server\<close>

text \<open>One call on the server: a request of the mux of \<open>Server.Handler\<close> that touches the
  timer, or one tick. The handler \<open>Index\<close> reads and writes no field and is left out.\<close>

datatype call =
    GetStatus string bool reads
  | GetTime string reads
  | PostStart string reads
  | PostStop string reads
  | Tick reads

fun serve :: "config \<Rightarrow> call \<Rightarrow> Server \<Rightarrow> error + Server" where
  "serve cfg (GetStatus meth accept_json clk) s =
     (case Status cfg meth accept_json clk s of Inl e \<Rightarrow> Inl e | Inr (r, evs, s1) \<Rightarrow> Inr s1)"
| "serve cfg (GetTime meth clk) s =
     (case Time cfg meth clk s of Inl e \<Rightarrow> Inl e | Inr (r, evs, s1) \<Rightarrow> Inr s1)"
| "serve cfg (PostStart meth clk) s =
     (case ActionStart cfg meth clk s of Inl e \<Rightarrow> Inl e | Inr (r, evs, s1) \<Rightarrow> Inr s1)"
| "serve cfg (PostStop meth clk) s =
     (case ActionStop cfg meth clk s of Inl e \<Rightarrow> Inl e | Inr (r, evs, s1) \<Rightarrow> Inr s1)"
| "serve cfg (Tick clk) s =
     (case tick cfg clk s of Inl e \<Rightarrow> Inl e | Inr (evs, s1) \<Rightarrow> Inr s1)"

fun run :: "config \<Rightarrow> call list \<Rightarrow> Server \<Rightarrow> error + Server" where
  "run cfg [] s = Inr s"
| "run cfg (c # cs) s = (case serve cfg c s of Inl e \<Rightarrow> Inl e | Inr s1 \<Rightarrow> run cfg cs s1)"

text \<open>The server part of an outcome.\<close>

fun server_of :: "error + ('a \<times> 'b \<times> Server) \<Rightarrow> Server option" where
  "server_of (Inl e) = None"
| "server_of (Inr (r, evs, s)) = Some s"

subsection \<open>The push notifier doRequest\<close>

text \<open>\<open>lastText\<close> and \<open>lastIcon\<close> are package-level variables. What \<open>url.Parse\<close> and the
  HTTP client answer is given by the caller of the model, in the record \<open>net\<close>.\<close>

record notifier =
  lastText :: string
  lastIcon :: string

datatype http_reply = GetFailed string | GetStatusCode nat string

record net =
  url_parses :: bool
  reply :: http_reply

datatype sent = HttpGet string string string string

definition doRequest ::
  "config \<Rightarrow> net \<Rightarrow> string \<Rightarrow> string \<Rightarrow> notifier \<Rightarrow>
   error + (string option \<times> sent list \<times> notifier)" where
  "doRequest cfg nw text iconData st =
     (if text = lastText st \<and> iconData = lastIcon st then Inr (None, [], st)
      else if \<not> url_parses nw then Inl (Panic ''url.Parse'')
      else
        (let st1 = st\<lparr>lastText := text, lastIcon := iconData\<rparr>;
             out = [HttpGet (URL cfg) (UUID cfg) text iconData]
         in (case reply nw of
               GetFailed msg \<Rightarrow> Inr (Some msg, out, st1)
             | GetStatusCode code status \<Rightarrow>
                 (if code \<noteq> 200 then Inr (Some (''Response status: '' @ status), out, st1)
                  else Inr (None, out, st1)))))"

definition initial_notifier :: notifier where
  "initial_notifier = \<lparr>lastText = [], lastIcon = []\<rparr>"

text \<open>Two invocations that do not overlap: the second starts after the first has returned
  and its deferred assignments have run. The replies of the network are given for each;
  the result holds the results of both, the requests sent by both, and the variables at
  the end.\<close>

definition doRequest_twice ::
  "config \<Rightarrow> net \<Rightarrow> net \<Rightarrow> string \<Rightarrow> string \<Rightarrow> notifier \<Rightarrow>
   error + ((string option \<times> string option) \<times> sent list \<times> notifier)" where
  "doRequest_twice cfg nw1 nw2 text iconData st =
     (case doRequest cfg nw1 text iconData st of
        Inl e \<Rightarrow> Inl e
      | Inr (r1, out1, st1) \<Rightarrow>
          (case doRequest cfg nw2 text iconData st1 of
             Inl e \<Rightarrow> Inl e
           | Inr (r2, out2, st2) \<Rightarrow> Inr ((r1, r2), out1 @ out2, st2)))"

text \<open>Two invocations that overlap. \<open>outputStatus\<close> starts every invocation on a goroutine
  of its own, and the assignments to \<open>lastText\<close> and \<open>lastIcon\<close> are deferred to the end of
  \<open>doRequest\<close>, after the HTTP request. So the second invocation can make its test while
  the first still waits for the answer: it then reads the variables as they were before
  the first.\<close>

definition doRequest_overlapping ::
  "config \<Rightarrow> net \<Rightarrow> net \<Rightarrow> string \<Rightarrow> string \<Rightarrow> notifier \<Rightarrow>
   error + ((string option \<times> string option) \<times> sent list \<times> notifier)" where
  "doRequest_overlapping cfg nw1 nw2 text iconData st =
     (case doRequest cfg nw1 text iconData st of
        Inl e \<Rightarrow> Inl e
      | Inr (r1, out1, st1) \<Rightarrow>
          (case doRequest cfg nw2 text iconData st of
             Inl e \<Rightarrow> Inl e
           | Inr (r2, out2, st2) \<Rightarrow> Inr ((r1, r2), out1 @ out2, st2)))"

subsection \<open>Configurations used in the examples\<close>

text \<open>The defaults of the flags of \<open>main\<close>: \<open>-n=4 -work=25m -short=5m -long=15m\<close>, both
  separators a colon, no command and no push URL.\<close>

definition default_config :: config where
  "default_config =
     \<lparr>N = 4, SepColon = '':'', SepBreak = '':'',
      DurationWork = 25 * Minute, DurationShortBreak = 5 * Minute,
      DurationLongBreak = 15 * Minute,
      Icon1Data = [], Icon2Data = [], UUID = [], URL = [],
      Command = [], CommandOnStart = []\<rparr>"

text \<open>The defaults with \<open>-uuid=W -port=12345\<close>: \<open>main\<close> builds the URL from the port.\<close>

definition push_config :: config where
  "push_config =
     default_config\<lparr>UUID := ''W'', URL := ''http://127.0.0.1:12345/update_touch_bar_widget/''\<rparr>"

text \<open>A clock that returns the same instant at every call site.\<close>

definition at :: "Instant \<Rightarrow> reads" where
  "at u = \<lparr>now_start = u, now_after = u, now_log = u, now_timer = u, now_reply = u\<rparr>"


subsection \<open>The values the switch statements name\<close>

definition known_mode :: "Mode \<Rightarrow> bool" where
  "known_mode m = (m = ModeWork \<or> m = ModeShortBreak \<or> m = ModeLongBreak)"

definition known_state :: "string \<Rightarrow> bool" where
  "known_state st = (st = StateStopped \<or> st = StatePaused \<or> st = StateRunning)"

subsection \<open>Calls that only look\<close>

text \<open>The ticks and the two \<open>GET\<close> requests: the calls that go through \<open>RefreshStatus\<close>
  and nothing else.\<close>

fun refresh_only :: "call \<Rightarrow> bool" where
  "refresh_only (Tick clk) = True"
| "refresh_only (GetStatus meth accept_json clk) = True"
| "refresh_only (GetTime meth clk) = True"
| "refresh_only (PostStart meth clk) = False"
| "refresh_only (PostStop meth clk) = False"

subsection \<open>Intervals that run to their end\<close>


subsection \<open>How one call can change the mode and the count\<close>

text \<open>What the program does to the two fields in one call, read off \<open>nextMode\<close> and the
  inner switch of \<open>ActionStop\<close>: the count stays and the mode becomes the long break only
  when the count is not below \<open>N\<close>; or the count is incremented and the mode becomes the
  long break only when the new count is not below \<open>N\<close>; or the count is set to 0 and the
  mode to work.\<close>

definition count_step :: "config \<Rightarrow> Server \<Rightarrow> Server \<Rightarrow> bool" where
  "count_step cfg s s1 =
     ((count s1 = count s \<and>
       (mode s1 = ModeLongBreak \<longrightarrow> mode s = ModeLongBreak \<or> \<not> count s < N cfg)) \<or>
      (count s1 = go_int (count s + 1) \<and>
       (mode s1 = ModeLongBreak \<longrightarrow> \<not> count s1 < N cfg)) \<or>
      (count s1 = 0 \<and> mode s1 = ModeWork))"

section \<open>Basic facts\<close>

lemma go_int_id: "minInt \<le> i \<Longrightarrow> i \<le> maxInt \<Longrightarrow> go_int i = i"
  by (simp add: go_int_def minInt_def maxInt_def)

lemma go_int_succ: "minInt \<le> i \<Longrightarrow> i < maxInt \<Longrightarrow> go_int (i + 1) = i + 1"
  by (rule go_int_id) simp_all

lemma mode_distinct [simp]:
  "ModeWork \<noteq> ModeShortBreak" "ModeWork \<noteq> ModeLongBreak" "ModeShortBreak \<noteq> ModeLongBreak"
  "ModeShortBreak \<noteq> ModeWork" "ModeLongBreak \<noteq> ModeWork" "ModeLongBreak \<noteq> ModeShortBreak"
  by (simp_all add: ModeWork_def ModeShortBreak_def ModeLongBreak_def)

lemma state_distinct [simp]:
  "StateStopped \<noteq> StatePaused" "StateStopped \<noteq> StateRunning" "StatePaused \<noteq> StateRunning"
  "StatePaused \<noteq> StateStopped" "StateRunning \<noteq> StateStopped" "StateRunning \<noteq> StatePaused"
  by (simp_all add: StateStopped_def StatePaused_def StateRunning_def)

lemma Mode_Duration_known:
  "known_mode m \<Longrightarrow> \<exists>x. Mode_Duration cfg m = Inr x"
  by (auto simp: known_mode_def Mode_Duration_def)

lemma Mode_Sep_known:
  "known_mode m \<Longrightarrow> Mode_Sep cfg m = Inr (if m = ModeWork then SepColon cfg else SepBreak cfg)"
  by (auto simp: known_mode_def Mode_Sep_def)

lemma Server_formatTimer_known:
  assumes "known_mode (mode s)" and "known_state (state s)"
  shows "\<exists>str. Server_formatTimer cfg now s = Inr str"
proof -
  obtain x where "Mode_Duration cfg (mode s) = Inr x"
    using Mode_Duration_known [OF assms(1)] by blast
  then show ?thesis
    using assms(2) by (auto simp: Server_formatTimer_def Mode_Sep_known [OF assms(1)] known_state_def)
qed

lemma outputStatus_known:
  assumes "known_mode (mode s)" and "known_state (state s)"
  shows "\<exists>str evs. outputStatus cfg output clk s = Inr (str, evs)"
proof -
  obtain a where a: "Server_formatTimer cfg (now_log clk) s = Inr a"
    using Server_formatTimer_known [OF assms] by blast
  obtain b where b: "Server_formatTimer cfg (now_timer clk) s = Inr b"
    using Server_formatTimer_known [OF assms] by blast
  show ?thesis
    by (simp add: outputStatus_def formatStatus_def a b)
qed

lemma nextMode_known:
  assumes "known_mode (mode s)"
  shows "nextMode cfg s =
     Inr (if mode s = ModeWork then
            s\<lparr>count := go_int (count s + 1),
              mode := (if go_int (count s + 1) < N cfg then ModeShortBreak
                       else ModeLongBreak)\<rparr>
          else if mode s = ModeLongBreak then s\<lparr>count := 0, mode := ModeWork\<rparr>
          else s\<lparr>mode := ModeWork\<rparr>)"
  using assms by (auto simp: nextMode_def known_mode_def Let_def)

lemma nextMode_mode_known:
  "nextMode cfg s = Inr s1 \<Longrightarrow> known_mode (mode s1) \<and> state s1 = state s"
  by (auto simp: nextMode_def known_mode_def Let_def split: if_splits)

lemma RefreshStatus_idle:
  assumes "known_mode (mode s)" and "known_state (state s)"
    and "\<not> (state s = StateRunning \<and> t s < now_after clk)"
  shows "\<exists>str evs. RefreshStatus cfg output clk s = Inr (str, evs, s)"
proof -
  obtain str evs where "outputStatus cfg output clk s = Inr (str, evs)"
    using outputStatus_known [OF assms(1,2)] by blast
  then show ?thesis
    using assms(3) by (auto simp: RefreshStatus_def time_After_def)
qed

lemma RefreshStatus_expired:
  assumes "known_mode (mode s)" and "state s = StateRunning" and "t s < now_after clk"
    and "nextMode cfg (s\<lparr>state := StateStopped\<rparr>) = Inr s1"
  shows "\<exists>str evs. outputStatus cfg True clk s1 = Inr (str, evs) \<and>
           RefreshStatus cfg output clk s = Inr (str, executeCommand cfg @ evs, s1)"
proof -
  have k: "known_mode (mode s1)" and st: "state s1 = StateStopped"
    using nextMode_mode_known [OF assms(4)] by simp_all
  have "known_state (state s1)" by (simp add: st known_state_def)
  then obtain str evs where "outputStatus cfg True clk s1 = Inr (str, evs)"
    using outputStatus_known [OF k] by blast
  then show ?thesis
    using assms(2,3,4) by (simp add: RefreshStatus_def time_After_def)
qed

subsection \<open>Formatting\<close>

lemma digits_small: "k < 10 \<Longrightarrow> digits k = [digit_char k]"
  by (simp add: digits.simps)

lemma digits_two:
  "10 \<le> k \<Longrightarrow> k < 100 \<Longrightarrow> digits k = [digit_char (k div 10), digit_char (k mod 10)]"
  by (subst digits.simps) (simp add: digits_small)

lemma fmt_02d_nat:
  assumes "k \<le> 99"
  shows "fmt_0d 2 (int k) = [digit_char (k div 10), digit_char (k mod 10)]"
proof (cases "k < 10")
  case True
  then show ?thesis by (simp add: fmt_0d_def zero_pad_def digits_small digit_char_def)
next
  case False
  with assms show ?thesis by (simp add: fmt_0d_def zero_pad_def digits_two)
qed

lemma digit_char_is_digit: "k < 10 \<Longrightarrow> digit_char k \<in> set ''0123456789''"
  unfolding digit_char_def by (rule nth_mem) simp

lemma sdiv_nonneg: "0 \<le> a \<Longrightarrow> 0 < b \<Longrightarrow> a sdiv b = a div (b::int)"
  by (simp add: signed_divide_int_def sgn_if)

lemma smod_nonneg: "0 \<le> a \<Longrightarrow> 0 < b \<Longrightarrow> a smod b = a mod (b::int)"
  by (simp add: signed_modulo_int_def sgn_if)

lemma formatTimer_nonneg:
  assumes "0 \<le> x"
  shows "formatTimer x sep =
     fmt_0d 2 (min 99 (x div 60000000000)) @ sep @ fmt_0d 2 (x mod 60000000000 div 1000000000)"
  using assms
  by (simp add: formatTimer_def Let_def Minute_def Second_def sdiv_nonneg smod_nonneg min_def)

lemma formatTimer_floor: "formatTimer x sep = formatTimer (max 0 x) sep"
  by (simp add: formatTimer_def max_def)

lemma seconds_bound: "(k::nat) mod 60000000000 div 1000000000 \<le> 59"
proof -
  have "k mod 60000000000 < 60 * 1000000000" by simp
  then have "k mod 60000000000 div 1000000000 < 60"
    by (simp only: less_mult_imp_div_less)
  then show ?thesis by simp
qed

lemma formatTimer_digits_nonneg:
  fixes x :: Duration
  assumes "0 \<le> x"
  shows "formatTimer x sep =
     (let m = min 99 (nat x div 60000000000); s = nat x mod 60000000000 div 1000000000
      in [digit_char (m div 10), digit_char (m mod 10)] @ sep @
         [digit_char (s div 10), digit_char (s mod 10)])"
proof -
  define m where "m = min 99 (nat x div 60000000000)"
  define s where "s = nat x mod 60000000000 div 1000000000"
  have x: "x = int (nat x)" using assms by simp
  have "x div 60000000000 = int (nat x div 60000000000)"
    by (subst x) (simp only: zdiv_int of_nat_numeral)
  then have m: "min 99 (x div 60000000000) = int m"
    unfolding m_def by (simp add: min_def)
  have s: "x mod 60000000000 div 1000000000 = int s"
    unfolding s_def by (subst x) (simp only: zdiv_int zmod_int of_nat_numeral)
  have "m \<le> 99" by (simp add: m_def)
  moreover have "s \<le> 99"
    using seconds_bound [of "nat x"] unfolding s_def by simp
  ultimately show ?thesis
    unfolding formatTimer_nonneg [OF assms] m s
    by (simp add: fmt_02d_nat Let_def m_def [symmetric] s_def [symmetric])
qed

lemma formatTimer_digits:
  "formatTimer x sep =
     (let m = min 99 (nat x div 60000000000); s = nat x mod 60000000000 div 1000000000
      in [digit_char (m div 10), digit_char (m mod 10)] @ sep @
         [digit_char (s div 10), digit_char (s mod 10)])"
proof (cases "0 \<le> x")
  case True
  then show ?thesis by (rule formatTimer_digits_nonneg)
next
  case False
  then have "max 0 x = 0" and "nat x = 0" by simp_all
  then show ?thesis
    using formatTimer_digits_nonneg [of 0 sep] formatTimer_floor [of x sep] by simp
qed

subsection \<open>Single calls\<close>

lemma known_state_simps [simp]:
  "known_state StateStopped" "known_state StatePaused" "known_state StateRunning"
  by (simp_all add: known_state_def)

lemma known_mode_simps [simp]:
  "known_mode ModeWork" "known_mode ModeShortBreak" "known_mode ModeLongBreak"
  by (simp_all add: known_mode_def)

lemma RefreshStatus_cases:
  assumes "RefreshStatus cfg output clk s = Inr (str, evs, s1)"
  shows "(s1 = s \<and> \<not> (state s = StateRunning \<and> t s < now_after clk)) \<or>
         (state s = StateRunning \<and> t s < now_after clk \<and>
          nextMode cfg (s\<lparr>state := StateStopped\<rparr>) = Inr s1)"
  using assms
  by (auto simp: RefreshStatus_def time_After_def split: if_splits sum.splits prod.splits)

lemma ActionStop_stopped:
  assumes "state s = StateStopped" and "known_mode (mode s)"
  shows "\<exists>str evs. ActionStop cfg ''POST'' clk s =
     Inr (Body str, evs,
          s\<lparr>mode := (if mode s = ModeWork
                      then (if count s < N cfg then ModeShortBreak else ModeLongBreak)
                      else if mode s = ModeShortBreak then ModeWork else ModeShortBreak)\<rparr>)"
proof -
  let ?s1 = "s\<lparr>mode := (if mode s = ModeWork
                      then (if count s < N cfg then ModeShortBreak else ModeLongBreak)
                      else if mode s = ModeShortBreak then ModeWork else ModeShortBreak)\<rparr>"
  have k: "known_mode (mode ?s1)" by simp
  have st: "known_state (state ?s1)" by (simp add: assms(1))
  have idle: "\<not> (state ?s1 = StateRunning \<and> t ?s1 < now_after clk)" by (simp add: assms(1))
  obtain str evs where r: "RefreshStatus cfg True clk ?s1 = Inr (str, evs, ?s1)"
    using RefreshStatus_idle [OF k st idle] by blast
  have "ActionStop cfg ''POST'' clk s = Inr (Body str, evs, ?s1)"
    using assms r unfolding ActionStop_def known_mode_def
    by (auto simp: Let_def)
  then show ?thesis by blast
qed

lemma nextMode_stopped:
  assumes "known_mode (mode s)"
  shows "nextMode cfg (s\<lparr>state := StateStopped\<rparr>) =
     Inr (s\<lparr>state := StateStopped,
            count := (if mode s = ModeWork then go_int (count s + 1)
                      else if mode s = ModeLongBreak then 0 else count s),
            mode := (if mode s = ModeWork
                     then (if go_int (count s + 1) < N cfg then ModeShortBreak
                           else ModeLongBreak)
                     else ModeWork)\<rparr>)"
proof -
  have "known_mode (mode (s\<lparr>state := StateStopped\<rparr>))" using assms by simp
  from nextMode_known [OF this, of cfg] show ?thesis by auto
qed

lemma outputStatus_no_Exec:
  "outputStatus cfg output clk s = Inr (str, evs) \<Longrightarrow> Exec c \<notin> set evs"
  by (auto simp: outputStatus_def split: if_splits sum.splits)

lemma RefreshStatus_expired_server:
  assumes "known_mode (mode s)" and "state s = StateRunning" and "t s < now_after clk"
  shows "server_of (RefreshStatus cfg output clk s) =
     Some (s\<lparr>state := StateStopped,
            count := (if mode s = ModeWork then go_int (count s + 1)
                      else if mode s = ModeLongBreak then 0 else count s),
            mode := (if mode s = ModeWork
                     then (if go_int (count s + 1) < N cfg then ModeShortBreak
                           else ModeLongBreak)
                     else ModeWork)\<rparr>)"
  using RefreshStatus_expired [OF assms nextMode_stopped [OF assms(1)], of cfg "output"]
  by auto

lemma RefreshStatus_idle_server:
  assumes "known_mode (mode s)" and "known_state (state s)"
    and "\<not> (state s = StateRunning \<and> t s < now_after clk)"
  shows "server_of (RefreshStatus cfg output clk s) = Some s"
  using RefreshStatus_idle [OF assms, of cfg "output"] by auto

lemma formatStatusJSON_known:
  assumes "known_mode (mode s)" and "known_state (state s)"
  shows "\<exists>js. formatStatusJSON cfg now s = Inr js"
  using Server_formatTimer_known [OF assms, of cfg now] by (auto simp: formatStatusJSON_def)

lemma RefreshStatus_known:
  assumes "RefreshStatus cfg output clk s = Inr (str, evs, s1)"
    and "known_mode (mode s)" and "known_state (state s)"
  shows "known_mode (mode s1) \<and> known_state (state s1)"
  using RefreshStatus_cases [OF assms(1)] assms(2,3)
  by (auto dest: nextMode_mode_known)

lemma RefreshStatus_returns:
  assumes "known_mode (mode s)" and "known_state (state s)"
  shows "\<exists>str evs s1. RefreshStatus cfg output clk s = Inr (str, evs, s1)"
proof (cases "state s = StateRunning \<and> t s < now_after clk")
  case True
  then show ?thesis
    using RefreshStatus_expired [OF assms(1) _ _ nextMode_stopped [OF assms(1)], of clk cfg "output"]
    by blast
next
  case False
  then show ?thesis using RefreshStatus_idle [OF assms False, of cfg "output"] by blast
qed

lemma Status_server:
  assumes "known_mode (mode s)" and "known_state (state s)"
  shows "server_of (Status cfg ''GET'' accept_json clk s) =
         server_of (RefreshStatus cfg True clk s)"
proof -
  obtain str evs s1 where r: "RefreshStatus cfg True clk s = Inr (str, evs, s1)"
    using RefreshStatus_returns [OF assms] by blast
  obtain js where "formatStatusJSON cfg (now_reply clk) s1 = Inr js"
    using formatStatusJSON_known RefreshStatus_known [OF r assms] by blast
  then show ?thesis by (simp add: Status_def r)
qed

lemma Time_server:
  "server_of (Time cfg ''GET'' clk s) = server_of (RefreshStatus cfg True clk s)"
  by (cases "RefreshStatus cfg True clk s") (auto simp: Time_def)

subsection \<open>Evaluating the model\<close>

lemmas model_defs =
  ActionStart_def ActionStop_def Status_def Time_def tick_def RefreshStatus_def
  outputStatus_def formatStatus_def formatStatusJSON_def Server_formatTimer_def
  nextMode_def go_int_def executeCommand_def executeCommandOnStart_def Mode_Duration_def Mode_Sep_def
  time_Add_def time_Sub_def time_After_def minDuration_def maxDuration_def
  default_config_def at_def NewServer_def Minute_def Second_def

subsection \<open>Calls through RefreshStatus only\<close>

lemma Status_cases:
  assumes "Status cfg meth accept_json clk s = Inr (r, evs, s1)"
  shows "s1 = s \<or> (state s = StateRunning \<and> state s1 = StateStopped)"
proof (cases "meth = ''GET''")
  case True
  with assms obtain str evs0 where "RefreshStatus cfg True clk s = Inr (str, evs0, s1)"
    by (auto simp: Status_def split: sum.splits if_splits)
  from RefreshStatus_cases [OF this] show ?thesis
    by (auto dest: nextMode_mode_known)
next
  case False
  with assms show ?thesis by (simp add: Status_def)
qed

lemma Time_cases:
  assumes "Time cfg meth clk s = Inr (r, evs, s1)"
  shows "s1 = s \<or> (state s = StateRunning \<and> state s1 = StateStopped)"
proof (cases "meth = ''GET''")
  case True
  with assms obtain str evs0 where "RefreshStatus cfg True clk s = Inr (str, evs0, s1)"
    by (auto simp: Time_def split: sum.splits if_splits)
  from RefreshStatus_cases [OF this] show ?thesis
    by (auto dest: nextMode_mode_known)
next
  case False
  with assms show ?thesis by (simp add: Time_def)
qed

lemma tick_cases:
  assumes "tick cfg clk s = Inr (evs, s1)"
  shows "s1 = s \<or> (state s = StateRunning \<and> state s1 = StateStopped)"
proof -
  from assms obtain str where "RefreshStatus cfg False clk s = Inr (str, evs, s1)"
    by (auto simp: tick_def split: sum.splits)
  from RefreshStatus_cases [OF this] show ?thesis
    by (auto dest: nextMode_mode_known)
qed

lemma passive_serve:
  assumes "refresh_only c" and "serve cfg c s = Inr s1"
  shows "s1 = s \<or> (state s = StateRunning \<and> state s1 = StateStopped)"
proof (cases c)
  case (GetStatus meth accept_json clk)
  with assms(2) obtain r evs where "Status cfg meth accept_json clk s = Inr (r, evs, s1)"
    by (auto split: sum.splits)
  then show ?thesis by (rule Status_cases)
next
  case (GetTime meth clk)
  with assms(2) obtain r evs where "Time cfg meth clk s = Inr (r, evs, s1)"
    by (auto split: sum.splits)
  then show ?thesis by (rule Time_cases)
next
  case (Tick clk)
  with assms(2) obtain evs where "tick cfg clk s = Inr (evs, s1)"
    by (auto split: sum.splits)
  then show ?thesis by (rule tick_cases)
next
  case (PostStart meth clk)
  with assms(1) show ?thesis by simp
next
  case (PostStop meth clk)
  with assms(1) show ?thesis by simp
qed

lemma passive_run:
  assumes "list_all refresh_only cs" and "run cfg cs s = Inr s1"
  shows "s1 = s \<or> (state s = StateRunning \<and> state s1 = StateStopped)"
  using assms
proof (induction cs arbitrary: s)
  case Nil
  then show ?case by simp
next
  case (Cons c cs)
  from Cons.prems obtain s' where c: "serve cfg c s = Inr s'" and r: "run cfg cs s' = Inr s1"
    by (auto split: sum.splits)
  from Cons.prems have p: "refresh_only c" and ps: "list_all refresh_only cs" by simp_all
  from passive_serve [OF p c] Cons.IH [OF ps r] show ?case by auto
qed

lemma ActionStart_pauses:
  assumes "server_of (ActionStart cfg ''POST'' clk s) = Some s1" and "state s1 = StatePaused"
  shows "state s = StateRunning \<and> s1 = s\<lparr>d := time_Sub (t s) (now_start clk), state := StatePaused\<rparr>"
proof -
  from assms(1) obtain r evs where a: "ActionStart cfg ''POST'' clk s = Inr (r, evs, s1)"
    by (cases "ActionStart cfg ''POST'' clk s") auto
  have run: "state s = StateRunning"
    using a assms(2)
    by (auto simp: ActionStart_def split: if_splits sum.splits prod.splits)
  with a obtain str evs0 s0 where r: "RefreshStatus cfg True clk s = Inr (str, evs0, s0)"
    and s1: "s1 = (if state s0 = StateRunning
                   then s0\<lparr>d := time_Sub (t s0) (now_start clk), state := StatePaused\<rparr> else s0)"
    by (auto simp: ActionStart_def split: if_splits sum.splits prod.splits)
  from RefreshStatus_cases [OF r] have "s0 = s \<or> state s0 = StateStopped"
    by (auto dest: nextMode_mode_known)
  then have "s0 = s" using s1 assms(2) by (auto split: if_splits)
  then show ?thesis using s1 run by simp
qed

lemma ActionStart_resumes:
  assumes "server_of (ActionStart cfg ''POST'' clk s) = Some s1" and "state s = StatePaused"
  shows "s1 = s\<lparr>t := now_start clk + d s, state := StateRunning\<rparr>"
proof -
  from assms(1) obtain r evs where a: "ActionStart cfg ''POST'' clk s = Inr (r, evs, s1)"
    by (cases "ActionStart cfg ''POST'' clk s") auto
  then show ?thesis using assms(2)
    by (auto simp: ActionStart_def time_Add_def split: if_splits sum.splits prod.splits)
qed

lemma time_Sub_range: "minDuration \<le> time_Sub u v \<and> time_Sub u v \<le> maxDuration"
  by (simp add: time_Sub_def minDuration_def maxDuration_def)

lemma time_Sub_later:
  assumes "minDuration \<le> x" and "x \<le> maxDuration" and "u \<le> v"
  shows "time_Sub (u + x) v \<le> x"
  using assms by (simp add: time_Sub_def)

subsection \<open>Every call returns and keeps the mode and the state known\<close>

lemma ActionStart_known:
  assumes "ActionStart cfg meth clk s = Inr (r, evs, s1)"
    and "known_mode (mode s)" and "known_state (state s)"
  shows "known_mode (mode s1) \<and> known_state (state s1)"
proof (cases "meth = ''POST'' \<and> state s = StateRunning")
  case True
  with assms(1) obtain str evs0 s0 where r: "RefreshStatus cfg True clk s = Inr (str, evs0, s0)"
    and s1: "s1 = (if state s0 = StateRunning
                   then s0\<lparr>d := time_Sub (t s0) (now_start clk), state := StatePaused\<rparr> else s0)"
    by (auto simp: ActionStart_def split: if_splits sum.splits prod.splits)
  from RefreshStatus_known [OF r assms(2,3)] s1 show ?thesis by auto
next
  case False
  with assms show ?thesis
    by (auto simp: ActionStart_def known_state_def split: if_splits sum.splits prod.splits)
qed

lemma ActionStart_returns:
  assumes "known_mode (mode s)" and "known_state (state s)"
  shows "\<exists>r evs s1. ActionStart cfg meth clk s = Inr (r, evs, s1)"
proof (cases "meth = ''POST''")
  case False
  then show ?thesis by (simp add: ActionStart_def)
next
  case True
  obtain dur where dur: "Mode_Duration cfg (mode s) = Inr dur"
    using Mode_Duration_known [OF assms(1)] by blast
  consider "state s = StateStopped" | "state s = StatePaused" | "state s = StateRunning"
    using assms(2) by (auto simp: known_state_def)
  then show ?thesis
  proof cases
    case 1
    let ?s2 = "s\<lparr>t := time_Add (now_start clk) dur, state := StateRunning\<rparr>"
    have "known_mode (mode ?s2)" "known_state (state ?s2)" using assms(1) by simp_all
    from Server_formatTimer_known [OF this, of cfg "now_reply clk"]
    show ?thesis using 1 True dur by (auto simp: ActionStart_def)
  next
    case 2
    let ?s2 = "s\<lparr>t := time_Add (now_start clk) (d s), state := StateRunning\<rparr>"
    have "known_mode (mode ?s2)" "known_state (state ?s2)" using assms(1) by simp_all
    from Server_formatTimer_known [OF this, of cfg "now_reply clk"]
    show ?thesis using 2 True by (auto simp: ActionStart_def)
  next
    case 3
    obtain str evs0 s0 where r: "RefreshStatus cfg True clk s = Inr (str, evs0, s0)"
      using RefreshStatus_returns [OF assms] by blast
    let ?s2 = "if state s0 = StateRunning
               then s0\<lparr>d := time_Sub (t s0) (now_start clk), state := StatePaused\<rparr> else s0"
    have "known_mode (mode ?s2)" "known_state (state ?s2)"
      using RefreshStatus_known [OF r assms] by auto
    from Server_formatTimer_known [OF this, of cfg "now_reply clk"]
    show ?thesis using 3 True r by (auto simp: ActionStart_def)
  qed
qed

lemma ActionStop_switch_known:
  assumes "known_mode (mode s)" and "known_state (state s)"
  shows "known_mode (mode
      (if state s = StateRunning \<or> state s = StatePaused then s\<lparr>state := StateStopped\<rparr>
       else if state s = StateStopped then
         (if mode s = ModeWork then
            (if count s < N cfg then s\<lparr>mode := ModeShortBreak\<rparr>
             else s\<lparr>mode := ModeLongBreak\<rparr>)
          else if mode s = ModeShortBreak then s\<lparr>mode := ModeWork\<rparr>
          else if mode s = ModeLongBreak then s\<lparr>mode := ModeShortBreak\<rparr>
          else s)
       else s)) \<and>
    state
      (if state s = StateRunning \<or> state s = StatePaused then s\<lparr>state := StateStopped\<rparr>
       else if state s = StateStopped then
         (if mode s = ModeWork then
            (if count s < N cfg then s\<lparr>mode := ModeShortBreak\<rparr>
             else s\<lparr>mode := ModeLongBreak\<rparr>)
          else if mode s = ModeShortBreak then s\<lparr>mode := ModeWork\<rparr>
          else if mode s = ModeLongBreak then s\<lparr>mode := ModeShortBreak\<rparr>
          else s)
       else s) = StateStopped"
  using assms by (auto simp: known_state_def)

lemma ActionStop_returns:
  assumes "known_mode (mode s)" and "known_state (state s)"
  shows "\<exists>r evs s1. ActionStop cfg meth clk s = Inr (r, evs, s1) \<and>
           known_mode (mode s1) \<and> known_state (state s1)"
proof (cases "meth = ''POST''")
  case False
  then show ?thesis using assms by (simp add: ActionStop_def)
next
  case True
  let ?s1 = "(if state s = StateRunning \<or> state s = StatePaused then s\<lparr>state := StateStopped\<rparr>
       else if state s = StateStopped then
         (if mode s = ModeWork then
            (if count s < N cfg then s\<lparr>mode := ModeShortBreak\<rparr>
             else s\<lparr>mode := ModeLongBreak\<rparr>)
          else if mode s = ModeShortBreak then s\<lparr>mode := ModeWork\<rparr>
          else if mode s = ModeLongBreak then s\<lparr>mode := ModeShortBreak\<rparr>
          else s)
       else s)"
  have k: "known_mode (mode ?s1)" and st: "state ?s1 = StateStopped"
    using ActionStop_switch_known [OF assms, of cfg] by blast+
  have ks: "known_state (state ?s1)" by (simp only: st known_state_simps)
  have idle: "\<not> (state ?s1 = StateRunning \<and> t ?s1 < now_after clk)"
    by (simp only: st state_distinct simp_thms)
  obtain str evs where "RefreshStatus cfg True clk ?s1 = Inr (str, evs, ?s1)"
    using RefreshStatus_idle [OF k ks idle] by blast
  then have "ActionStop cfg meth clk s = Inr (Body str, evs, ?s1)"
    using True by (simp add: ActionStop_def Let_def)
  with k ks show ?thesis by blast
qed

lemma Status_returns:
  assumes "known_mode (mode s)" and "known_state (state s)"
  shows "\<exists>r evs s1. Status cfg meth accept_json clk s = Inr (r, evs, s1) \<and>
           known_mode (mode s1) \<and> known_state (state s1)"
proof (cases "meth = ''GET''")
  case False
  then show ?thesis using assms by (simp add: Status_def)
next
  case True
  obtain str evs s1 where r: "RefreshStatus cfg True clk s = Inr (str, evs, s1)"
    using RefreshStatus_returns [OF assms] by blast
  have k: "known_mode (mode s1)" "known_state (state s1)"
    using RefreshStatus_known [OF r assms] by simp_all
  obtain js where "formatStatusJSON cfg (now_reply clk) s1 = Inr js"
    using formatStatusJSON_known [OF k] by blast
  then show ?thesis using True r k by (simp add: Status_def)
qed

lemma Time_returns:
  assumes "known_mode (mode s)" and "known_state (state s)"
  shows "\<exists>r evs s1. Time cfg meth clk s = Inr (r, evs, s1) \<and>
           known_mode (mode s1) \<and> known_state (state s1)"
proof (cases "meth = ''GET''")
  case False
  then show ?thesis using assms by (simp add: Time_def)
next
  case True
  obtain str evs s1 where r: "RefreshStatus cfg True clk s = Inr (str, evs, s1)"
    using RefreshStatus_returns [OF assms] by blast
  then show ?thesis using True RefreshStatus_known [OF r assms] by (simp add: Time_def)
qed

lemma tick_returns:
  assumes "known_mode (mode s)" and "known_state (state s)"
  shows "\<exists>evs s1. tick cfg clk s = Inr (evs, s1) \<and>
           known_mode (mode s1) \<and> known_state (state s1)"
proof -
  obtain str evs s1 where r: "RefreshStatus cfg False clk s = Inr (str, evs, s1)"
    using RefreshStatus_returns [OF assms] by blast
  then show ?thesis using RefreshStatus_known [OF r assms] by (simp add: tick_def)
qed

lemma serve_returns:
  assumes "known_mode (mode s)" and "known_state (state s)"
  shows "\<exists>s1. serve cfg c s = Inr s1 \<and> known_mode (mode s1) \<and> known_state (state s1)"
proof (cases c)
  case (GetStatus meth accept_json clk)
  then show ?thesis using Status_returns [OF assms, of cfg meth accept_json clk] by auto
next
  case (GetTime meth clk)
  then show ?thesis using Time_returns [OF assms, of cfg meth clk] by auto
next
  case (PostStart meth clk)
  obtain r evs s1 where a: "ActionStart cfg meth clk s = Inr (r, evs, s1)"
    using ActionStart_returns [OF assms] by blast
  with PostStart show ?thesis using ActionStart_known [OF a assms] by simp
next
  case (PostStop meth clk)
  then show ?thesis using ActionStop_returns [OF assms, of cfg meth clk] by auto
next
  case (Tick clk)
  then show ?thesis using tick_returns [OF assms, of cfg clk] by auto
qed

lemma NewServer_known: "known_mode (mode NewServer) \<and> known_state (state NewServer)"
  by (simp add: NewServer_def)

lemma run_known:
  assumes "run cfg cs s = Inr s1" and "known_mode (mode s)" and "known_state (state s)"
  shows "known_mode (mode s1) \<and> known_state (state s1)"
  using assms
proof (induction cs arbitrary: s)
  case Nil
  then show ?case by simp
next
  case (Cons c cs)
  from Cons.prems(1) obtain s' where c: "serve cfg c s = Inr s'" and r: "run cfg cs s' = Inr s1"
    by (auto split: sum.splits)
  from serve_returns [OF Cons.prems(2,3), of cfg c] c
  have "known_mode (mode s')" and "known_state (state s')" by auto
  from Cons.IH [OF r this] show ?case .
qed

lemma run_returns:
  assumes "known_mode (mode s)" and "known_state (state s)"
  shows "\<exists>s1. run cfg cs s = Inr s1"
  using assms
proof (induction cs arbitrary: s)
  case Nil
  then show ?case by simp
next
  case (Cons c cs)
  from serve_returns [OF Cons.prems, of cfg c]
  obtain s' where c: "serve cfg c s = Inr s'" and k: "known_mode (mode s')" "known_state (state s')"
    by blast
  from Cons.IH [OF k] c show ?case by simp
qed

subsection \<open>The count along a run\<close>

text \<open>At the largest \<open>int\<close> the count wraps around to the smallest, and the mode after
  work is the short break.\<close>

lemma nextMode_at_maxInt:
  "nextMode default_config
     \<lparr>mode = ModeWork, state = StateStopped, t = 0, d = 0, count = maxInt\<rparr> =
   Inr \<lparr>mode = ModeShortBreak, state = StateStopped, t = 0, d = 0, count = minInt\<rparr>"
  by (simp add: nextMode_def go_int_def maxInt_def minInt_def default_config_def)

lemma nextMode_step:
  assumes "nextMode cfg (s\<lparr>state := st\<rparr>) = Inr s1"
  shows "count_step cfg s s1"
  using assms by (auto simp: nextMode_def count_step_def Let_def split: if_splits)

lemma count_step_refl: "count_step cfg s s"
  by (simp add: count_step_def)

lemma count_step_cong:
  "count_step cfg s s1 \<Longrightarrow> mode s' = mode s \<Longrightarrow> count s' = count s \<Longrightarrow>
   mode s1' = mode s1 \<Longrightarrow> count s1' = count s1 \<Longrightarrow> count_step cfg s' s1'"
  by (simp add: count_step_def)

lemma RefreshStatus_step:
  assumes "RefreshStatus cfg output clk s = Inr (str, evs, s1)"
  shows "count_step cfg s s1"
proof -
  from RefreshStatus_cases [OF assms]
  consider "s1 = s" | "nextMode cfg (s\<lparr>state := StateStopped\<rparr>) = Inr s1" by blast
  then show ?thesis
  proof cases
    case 1
    then show ?thesis by (simp add: count_step_refl)
  next
    case 2
    then show ?thesis by (rule nextMode_step)
  qed
qed

lemma ActionStart_step:
  assumes "ActionStart cfg meth clk s = Inr (r, evs, s1)"
  shows "count_step cfg s s1"
proof (cases "meth = ''POST'' \<and> state s = StateRunning")
  case True
  with assms obtain str evs0 s0 where r: "RefreshStatus cfg True clk s = Inr (str, evs0, s0)"
    and s1: "s1 = (if state s0 = StateRunning
                   then s0\<lparr>d := time_Sub (t s0) (now_start clk), state := StatePaused\<rparr> else s0)"
    by (auto simp: ActionStart_def split: if_splits sum.splits prod.splits)
  from s1 have "mode s1 = mode s0" and "count s1 = count s0" by auto
  with RefreshStatus_step [OF r] show ?thesis
    by (intro count_step_cong [of cfg s s0 s s1]) simp_all
next
  case False
  with assms have "mode s1 = mode s" and "count s1 = count s"
    by (auto simp: ActionStart_def split: if_splits sum.splits prod.splits)
  then show ?thesis by (intro count_step_cong [OF count_step_refl [of cfg s]]) simp_all
qed

lemma ActionStop_step:
  assumes "ActionStop cfg meth clk s = Inr (r, evs, s1)"
  shows "count_step cfg s s1"
proof (cases "meth = ''POST''")
  case False
  with assms show ?thesis by (simp add: ActionStop_def count_step_refl)
next
  case True
  let ?s0 = "(if state s = StateRunning \<or> state s = StatePaused then s\<lparr>state := StateStopped\<rparr>
       else if state s = StateStopped then
         (if mode s = ModeWork then
            (if count s < N cfg then s\<lparr>mode := ModeShortBreak\<rparr>
             else s\<lparr>mode := ModeLongBreak\<rparr>)
          else if mode s = ModeShortBreak then s\<lparr>mode := ModeWork\<rparr>
          else if mode s = ModeLongBreak then s\<lparr>mode := ModeShortBreak\<rparr>
          else s)
       else s)"
  from assms True obtain str where r: "RefreshStatus cfg True clk ?s0 = Inr (str, evs, s1)"
    by (auto simp: ActionStop_def Let_def split: sum.splits)
  have "state ?s0 \<noteq> StateRunning" by auto
  with RefreshStatus_cases [OF r] have "s1 = ?s0" by blast
  then show ?thesis by (auto simp: count_step_def)
qed

lemma serve_step:
  assumes "serve cfg c s = Inr s1"
  shows "count_step cfg s s1"
proof (cases c)
  case (GetStatus meth accept_json clk)
  show ?thesis
  proof (cases "meth = ''GET''")
    case True
    with assms GetStatus obtain str evs where "RefreshStatus cfg True clk s = Inr (str, evs, s1)"
      by (auto simp: Status_def split: sum.splits if_splits)
    then show ?thesis by (rule RefreshStatus_step)
  next
    case False
    with assms GetStatus show ?thesis by (simp add: Status_def count_step_refl)
  qed
next
  case (GetTime meth clk)
  show ?thesis
  proof (cases "meth = ''GET''")
    case True
    with assms GetTime obtain str evs where "RefreshStatus cfg True clk s = Inr (str, evs, s1)"
      by (auto simp: Time_def split: sum.splits if_splits)
    then show ?thesis by (rule RefreshStatus_step)
  next
    case False
    with assms GetTime show ?thesis by (simp add: Time_def count_step_refl)
  qed
next
  case (PostStart meth clk)
  with assms obtain r evs where "ActionStart cfg meth clk s = Inr (r, evs, s1)"
    by (auto split: sum.splits)
  then show ?thesis by (rule ActionStart_step)
next
  case (PostStop meth clk)
  with assms obtain r evs where "ActionStop cfg meth clk s = Inr (r, evs, s1)"
    by (auto split: sum.splits)
  then show ?thesis by (rule ActionStop_step)
next
  case (Tick clk)
  with assms obtain str evs where "RefreshStatus cfg False clk s = Inr (str, evs, s1)"
    by (auto simp: tick_def split: sum.splits)
  then show ?thesis by (rule RefreshStatus_step)
qed

lemma count_step_long_break:
  assumes "count_step cfg s s1" and "mode s = ModeLongBreak \<longrightarrow> N cfg \<le> count s"
  shows "mode s1 = ModeLongBreak \<longrightarrow> N cfg \<le> count s1"
  using assms by (auto simp: count_step_def)

lemma count_step_bounded:
  assumes "count_step cfg s s1" and "0 \<le> count s" and "count s < maxInt"
  shows "0 \<le> count s1 \<and> count s1 \<le> count s + 1"
proof -
  have "minInt \<le> count s" using assms(2) by (simp add: minInt_def)
  then have "go_int (count s + 1) = count s + 1" using assms(3) by (rule go_int_succ)
  with assms show ?thesis by (auto simp: count_step_def)
qed

lemma run_long_break:
  assumes "run cfg cs s = Inr s1" and "mode s = ModeLongBreak \<longrightarrow> N cfg \<le> count s"
  shows "mode s1 = ModeLongBreak \<longrightarrow> N cfg \<le> count s1"
  using assms
proof (induction cs arbitrary: s)
  case Nil
  then show ?case by simp
next
  case (Cons c cs)
  from Cons.prems(1) obtain s' where c: "serve cfg c s = Inr s'" and r: "run cfg cs s' = Inr s1"
    by (auto split: sum.splits)
  from count_step_long_break [OF serve_step [OF c] Cons.prems(2)]
  show ?case by (rule Cons.IH [OF r])
qed

lemma run_count_bounded:
  assumes "run cfg cs s = Inr s1" and "0 \<le> count s"
    and "count s + int (length cs) \<le> maxInt"
  shows "0 \<le> count s1 \<and> count s1 \<le> count s + int (length cs)"
  using assms
proof (induction cs arbitrary: s)
  case Nil
  then show ?case by simp
next
  case (Cons c cs)
  from Cons.prems(1) obtain s' where c: "serve cfg c s = Inr s'" and r: "run cfg cs s' = Inr s1"
    by (auto split: sum.splits)
  have "count s < maxInt" using Cons.prems(3) by simp
  from count_step_bounded [OF serve_step [OF c] Cons.prems(2) this]
  have s': "0 \<le> count s'" "count s' \<le> count s + 1" by simp_all
  have "count s' + int (length cs) \<le> maxInt" using s'(2) Cons.prems(3) by simp
  from Cons.IH [OF r s'(1) this] s'(2) show ?case by simp
qed

subsection \<open>Runs of intervals\<close>





subsection \<open>The push notifier\<close>

lemma doRequest_same:
  "text = lastText st \<Longrightarrow> iconData = lastIcon st \<Longrightarrow>
   doRequest cfg nw text iconData st = Inr (None, [], st)"
  by (simp add: doRequest_def)

lemma doRequest_new:
  assumes "\<not> (text = lastText st \<and> iconData = lastIcon st)" and "url_parses nw"
  shows "\<exists>r. doRequest cfg nw text iconData st =
           Inr (r, [HttpGet (URL cfg) (UUID cfg) text iconData],
                st\<lparr>lastText := text, lastIcon := iconData\<rparr>)"
  using assms by (cases "reply nw") (auto simp: doRequest_def Let_def)

text \<open>When the two invocations overlap as \<open>doRequest_overlapping\<close> describes, a pair that
  differs from the last one sent is sent twice: the test of the second is made before
  the deferred assignments of the first.\<close>

lemma doRequest_overlapping_sends_twice:
  assumes "\<not> (text = lastText st \<and> iconData = lastIcon st)"
    and "url_parses nw1" and "url_parses nw2"
  shows "\<exists>r1 r2 st2.
     doRequest_overlapping cfg nw1 nw2 text iconData st =
       Inr ((r1, r2),
            [HttpGet (URL cfg) (UUID cfg) text iconData,
             HttpGet (URL cfg) (UUID cfg) text iconData],
            st2)"
proof -
  obtain r1 where "doRequest cfg nw1 text iconData st =
           Inr (r1, [HttpGet (URL cfg) (UUID cfg) text iconData],
                st\<lparr>lastText := text, lastIcon := iconData\<rparr>)"
    using doRequest_new [OF assms(1,2)] by blast
  moreover obtain r2 where "doRequest cfg nw2 text iconData st =
           Inr (r2, [HttpGet (URL cfg) (UUID cfg) text iconData],
                st\<lparr>lastText := text, lastIcon := iconData\<rparr>)"
    using doRequest_new [OF assms(1,3)] by blast
  ultimately show ?thesis by (simp add: doRequest_overlapping_def)
qed

section \<open>The properties of the specification\<close>

subsection \<open>C1: stop while stopped\<close>

text \<open>
  C1 (as the code has it). For every server in the stopped state, \<open>POST /action/stop\<close>
  moves the mode one step and leaves every other field as it is; the count is read, never
  written. From work the next mode is the short break when \<open>count < N\<close> and the long
  break otherwise; from the short break it is work; from the long break it is the short
  break, and the count is not reset.
\<close>

theorem ActionStop_stopped_switches_mode:
  assumes "state s = StateStopped" and "known_mode (mode s)"
  shows "server_of (ActionStop cfg ''POST'' clk s) =
     Some (s\<lparr>mode := (if mode s = ModeWork
                       then (if count s < N cfg then ModeShortBreak else ModeLongBreak)
                       else if mode s = ModeShortBreak then ModeWork
                       else ModeShortBreak)\<rparr>)"
  using ActionStop_stopped [OF assms, of cfg clk] by auto

text \<open>The long break with four completed intervals becomes the short break, still with four.\<close>

theorem ActionStop_stopped_switches_mode_witness:
  "state \<lparr>mode = ModeLongBreak, state = StateStopped, t = 0, d = 0, count = 4\<rparr> = StateStopped \<and>
   known_mode (mode \<lparr>mode = ModeLongBreak, state = StateStopped, t = 0, d = 0, count = 4\<rparr>) \<and>
   server_of (ActionStop default_config ''POST'' (at 7)
                \<lparr>mode = ModeLongBreak, state = StateStopped, t = 0, d = 0, count = 4\<rparr>) =
     Some \<lparr>mode = ModeShortBreak, state = StateStopped, t = 0, d = 0, count = 4\<rparr>"
  using ActionStop_stopped_switches_mode
    [of "\<lparr>mode = ModeLongBreak, state = StateStopped, t = 0, d = 0, count = 4\<rparr>"
        default_config "at 7"]
  by simp

text \<open>The claim as the specification states it, that the stopped long break with count 0
  becomes \<open>{Work, Stopped, 0}\<close>, fails: the server becomes \<open>{ShortBreak, Stopped, 0}\<close>.\<close>

theorem ActionStop_long_break_counterexample:
  "server_of (ActionStop default_config ''POST'' (at 7)
                \<lparr>mode = ModeLongBreak, state = StateStopped, t = 0, d = 0, count = 0\<rparr>) =
     Some \<lparr>mode = ModeShortBreak, state = StateStopped, t = 0, d = 0, count = 0\<rparr> \<and>
   server_of (ActionStop default_config ''POST'' (at 7)
                \<lparr>mode = ModeLongBreak, state = StateStopped, t = 0, d = 0, count = 0\<rparr>) \<noteq>
     Some \<lparr>mode = ModeWork, state = StateStopped, t = 0, d = 0, count = 0\<rparr>"
  using ActionStop_stopped
    [of "\<lparr>mode = ModeLongBreak, state = StateStopped, t = 0, d = 0, count = 0\<rparr>"
        default_config "at 7"]
  by auto

subsection \<open>C2: the range of the count\<close>

text \<open>
  C2 (as the code has it). Let the server be reached from \<open>NewServer\<close> by a list of calls
  taken one after the other. Then the count is at least \<open>N\<close> whenever the mode is the long
  break. As long as the number of calls is at most the largest \<open>int\<close>, so that the count
  cannot have wrapped around, the count is not negative and at most the number of calls.
  The count is not reset when the mode becomes the long break: the expiry of a work
  interval enters the long break with the count it has just incremented. The count is
  set to 0 when the expiry of the long break leaves it for work.
\<close>

theorem count_invariant:
  assumes "run cfg cs NewServer = Inr s"
  shows "(mode s = ModeLongBreak \<longrightarrow> N cfg \<le> count s) \<and>
         (int (length cs) \<le> maxInt \<longrightarrow> 0 \<le> count s \<and> count s \<le> int (length cs)) \<and>
         (state s = StateRunning \<and> t s < now_after clk \<and> mode s = ModeWork \<and>
          N cfg \<le> count s + 1 \<and> 0 \<le> count s \<and> count s < maxInt \<longrightarrow>
            server_of (RefreshStatus cfg output clk s) =
              Some (s\<lparr>state := StateStopped, count := count s + 1, mode := ModeLongBreak\<rparr>)) \<and>
         (state s = StateRunning \<and> t s < now_after clk \<and> mode s = ModeLongBreak \<longrightarrow>
            server_of (RefreshStatus cfg output clk s) =
              Some (s\<lparr>state := StateStopped, count := 0, mode := ModeWork\<rparr>))"
proof -
  have k: "known_mode (mode s)"
    using run_known [OF assms] NewServer_known by simp
  have a: "mode s = ModeLongBreak \<longrightarrow> N cfg \<le> count s"
    by (rule run_long_break [OF assms]) (simp add: NewServer_def)
  have b: "0 \<le> count s \<and> count s \<le> int (length cs)" if "int (length cs) \<le> maxInt"
    using run_count_bounded [OF assms] that by (simp add: NewServer_def)
  have c: "server_of (RefreshStatus cfg output clk s) =
              Some (s\<lparr>state := StateStopped, count := count s + 1, mode := ModeLongBreak\<rparr>)"
    if "state s = StateRunning" "t s < now_after clk" "mode s = ModeWork" "N cfg \<le> count s + 1"
      "0 \<le> count s" "count s < maxInt"
  proof -
    have "minInt \<le> count s" using that(5) by (simp add: minInt_def)
    then have "go_int (count s + 1) = count s + 1" using that(6) by (rule go_int_succ)
    then show ?thesis
      using RefreshStatus_expired_server [OF k that(1,2), of cfg "output"] that(3,4) by simp
  qed
  have e: "server_of (RefreshStatus cfg output clk s) =
              Some (s\<lparr>state := StateStopped, count := 0, mode := ModeWork\<rparr>)"
    if "state s = StateRunning" "t s < now_after clk" "mode s = ModeLongBreak"
    using RefreshStatus_expired_server [OF k that(1,2), of cfg "output"] that(3) by simp
  from a b c e show ?thesis by blast
qed

text \<open>With the default flags: after thirteen calls the fourth work interval is running
  with the count 3, and it runs out with the count going to 4 into the long break; two
  calls later the long break is running, and it runs out with the count going to 0.\<close>

theorem count_invariant_witness:
  "run default_config
     [PostStart ''POST'' (at 0), Tick (at 2000000000000),
      PostStart ''POST'' (at 2000000000000), Tick (at 4000000000000),
      PostStart ''POST'' (at 4000000000000), Tick (at 6000000000000),
      PostStart ''POST'' (at 6000000000000), Tick (at 8000000000000),
      PostStart ''POST'' (at 8000000000000), Tick (at 10000000000000),
      PostStart ''POST'' (at 10000000000000), Tick (at 12000000000000),
      PostStart ''POST'' (at 12000000000000)] NewServer =
     Inr \<lparr>mode = ModeWork, state = StateRunning, t = 13500000000000, d = 0, count = 3\<rparr> \<and>
   int 13 \<le> maxInt \<and>
   0 \<le> count \<lparr>mode = ModeWork, state = StateRunning, t = 13500000000000, d = 0, count = 3\<rparr> \<and>
   count \<lparr>mode = ModeWork, state = StateRunning, t = 13500000000000, d = 0, count = 3\<rparr>
     \<le> int 13 \<and>
   server_of (RefreshStatus default_config False (at 14000000000000)
     \<lparr>mode = ModeWork, state = StateRunning, t = 13500000000000, d = 0, count = 3\<rparr>) =
     Some \<lparr>mode = ModeLongBreak, state = StateStopped, t = 13500000000000, d = 0, count = 4\<rparr> \<and>
   run default_config
     [PostStart ''POST'' (at 0), Tick (at 2000000000000),
      PostStart ''POST'' (at 2000000000000), Tick (at 4000000000000),
      PostStart ''POST'' (at 4000000000000), Tick (at 6000000000000),
      PostStart ''POST'' (at 6000000000000), Tick (at 8000000000000),
      PostStart ''POST'' (at 8000000000000), Tick (at 10000000000000),
      PostStart ''POST'' (at 10000000000000), Tick (at 12000000000000),
      PostStart ''POST'' (at 12000000000000), Tick (at 14000000000000),
      PostStart ''POST'' (at 14000000000000)] NewServer =
     Inr \<lparr>mode = ModeLongBreak, state = StateRunning, t = 14900000000000, d = 0, count = 4\<rparr> \<and>
   N default_config
     \<le> count \<lparr>mode = ModeLongBreak, state = StateRunning, t = 14900000000000, d = 0, count = 4\<rparr> \<and>
   server_of (RefreshStatus default_config False (at 15000000000000)
     \<lparr>mode = ModeLongBreak, state = StateRunning, t = 14900000000000, d = 0, count = 4\<rparr>) =
     Some \<lparr>mode = ModeWork, state = StateStopped, t = 14900000000000, d = 0, count = 0\<rparr>"
proof -
  let ?w = "\<lparr>mode = ModeWork, state = StateRunning, t = 13500000000000, d = 0, count = 3\<rparr>"
  let ?l = "\<lparr>mode = ModeLongBreak, state = StateRunning, t = 14900000000000, d = 0, count = 4\<rparr>"
  let ?cw = "[PostStart ''POST'' (at 0), Tick (at 2000000000000),
      PostStart ''POST'' (at 2000000000000), Tick (at 4000000000000),
      PostStart ''POST'' (at 4000000000000), Tick (at 6000000000000),
      PostStart ''POST'' (at 6000000000000), Tick (at 8000000000000),
      PostStart ''POST'' (at 8000000000000), Tick (at 10000000000000),
      PostStart ''POST'' (at 10000000000000), Tick (at 12000000000000),
      PostStart ''POST'' (at 12000000000000)]"
  let ?cl = "[PostStart ''POST'' (at 0), Tick (at 2000000000000),
      PostStart ''POST'' (at 2000000000000), Tick (at 4000000000000),
      PostStart ''POST'' (at 4000000000000), Tick (at 6000000000000),
      PostStart ''POST'' (at 6000000000000), Tick (at 8000000000000),
      PostStart ''POST'' (at 8000000000000), Tick (at 10000000000000),
      PostStart ''POST'' (at 10000000000000), Tick (at 12000000000000),
      PostStart ''POST'' (at 12000000000000), Tick (at 14000000000000),
      PostStart ''POST'' (at 14000000000000)]"
  have w: "run default_config ?cw NewServer = Inr ?w"
    by (simp add: model_defs)
  have l: "run default_config ?cl NewServer = Inr ?l"
    by (simp add: model_defs)
  have m: "int 13 \<le> maxInt" by (simp add: maxInt_def)
  have tw: "t ?w < now_after (at 14000000000000)" and tl: "t ?l < now_after (at 15000000000000)"
    by (simp_all add: at_def)
  have nw: "N default_config \<le> count ?w + 1" "count ?w < maxInt"
    by (simp_all add: default_config_def maxInt_def)
  from count_invariant [OF w, of "at 14000000000000" False] m tw nw
  have a: "0 \<le> count ?w \<and> count ?w \<le> int 13 \<and>
     server_of (RefreshStatus default_config False (at 14000000000000) ?w) =
     Some \<lparr>mode = ModeLongBreak, state = StateStopped, t = 13500000000000, d = 0, count = 4\<rparr>"
    by simp
  from count_invariant [OF l, of "at 15000000000000" False] tl
  have b: "N default_config \<le> count ?l \<and>
     server_of (RefreshStatus default_config False (at 15000000000000) ?l) =
     Some \<lparr>mode = ModeWork, state = StateStopped, t = 14900000000000, d = 0, count = 0\<rparr>"
    by simp
  from w m a l b show ?thesis by blast
qed

text \<open>The claim as stated, \<open>count < N\<close> in every reachable state, fails. Seven intervals
  run out and leave the stopped long break with the count 4; two \<open>POST /action/stop\<close> lead
  by the short break to work, still with 4; the next work interval runs out with the
  count 5 for \<open>N = 4\<close>.\<close>

theorem count_below_N_counterexample:
  "run default_config
    [PostStart ''POST'' (at 0), Tick (at 2000000000000),
     PostStart ''POST'' (at 2000000000000), Tick (at 4000000000000),
     PostStart ''POST'' (at 4000000000000), Tick (at 6000000000000),
     PostStart ''POST'' (at 6000000000000), Tick (at 8000000000000),
     PostStart ''POST'' (at 8000000000000), Tick (at 10000000000000),
     PostStart ''POST'' (at 10000000000000), Tick (at 12000000000000),
     PostStart ''POST'' (at 12000000000000), Tick (at 14000000000000),
     PostStop ''POST'' (at 14000000000000), PostStop ''POST'' (at 14000000000000),
     PostStart ''POST'' (at 14000000000000), Tick (at 16000000000000)] NewServer =
    Inr \<lparr>mode = ModeLongBreak, state = StateStopped, t = 15500000000000, d = 0, count = 5\<rparr> \<and>
   \<not> count \<lparr>mode = ModeLongBreak, state = StateStopped, t = 15500000000000, d = 0, count = 5\<rparr>
       < N default_config"
  by (simp add: model_defs)

subsection \<open>C3: counting by automatic expiry\<close>



subsection \<open>C4: status queries\<close>

text \<open>
  C4 (as the code has it). \<open>GET /status\<close> and \<open>GET /time\<close> call \<open>RefreshStatus\<close>, so
  they leave every field of the server as it is unless the timer is running and the clock
  read by \<open>RefreshStatus\<close> is after the deadline \<open>t\<close>. In that case the query itself ends
  the interval: the state becomes stopped and \<open>nextMode\<close> moves the mode and the count.
  A request with another method is answered with 404 and changes nothing.
\<close>

theorem status_query_changes_only_on_expiry:
  assumes "known_mode (mode s)" and "known_state (state s)"
  shows "(\<not> (meth = ''GET'' \<and> state s = StateRunning \<and> t s < now_after clk) \<longrightarrow>
            server_of (Status cfg meth accept_json clk s) = Some s \<and>
            server_of (Time cfg meth clk s) = Some s) \<and>
         (state s = StateRunning \<and> t s < now_after clk \<longrightarrow>
            (\<exists>s1. nextMode cfg (s\<lparr>state := StateStopped\<rparr>) = Inr s1 \<and>
                  server_of (Status cfg ''GET'' accept_json clk s) = Some s1 \<and>
                  server_of (Time cfg ''GET'' clk s) = Some s1 \<and>
                  state s1 = StateStopped \<and> mode s1 \<noteq> mode s))"
proof (intro conjI impI)
  assume a: "\<not> (meth = ''GET'' \<and> state s = StateRunning \<and> t s < now_after clk)"
  show "server_of (Status cfg meth accept_json clk s) = Some s"
  proof (cases "meth = ''GET''")
    case True
    with a have "\<not> (state s = StateRunning \<and> t s < now_after clk)" by simp
    from RefreshStatus_idle_server [OF assms this] show ?thesis
      using Status_server [OF assms] True by simp
  next
    case False
    then show ?thesis by (simp add: Status_def)
  qed
  show "server_of (Time cfg meth clk s) = Some s"
  proof (cases "meth = ''GET''")
    case True
    with a have "\<not> (state s = StateRunning \<and> t s < now_after clk)" by simp
    from RefreshStatus_idle_server [OF assms this] show ?thesis
      using Time_server True by simp
  next
    case False
    then show ?thesis by (simp add: Time_def)
  qed
next
  assume b: "state s = StateRunning \<and> t s < now_after clk"
  then have r: "state s = StateRunning" and e: "t s < now_after clk" by simp_all
  let ?s1 = "s\<lparr>state := StateStopped,
            count := (if mode s = ModeWork then go_int (count s + 1)
                      else if mode s = ModeLongBreak then 0 else count s),
            mode := (if mode s = ModeWork
                     then (if go_int (count s + 1) < N cfg then ModeShortBreak
                           else ModeLongBreak)
                     else ModeWork)\<rparr>"
  have "nextMode cfg (s\<lparr>state := StateStopped\<rparr>) = Inr ?s1"
    by (rule nextMode_stopped [OF assms(1)])
  moreover have "server_of (Status cfg ''GET'' accept_json clk s) = Some ?s1"
    using Status_server [OF assms] RefreshStatus_expired_server [OF assms(1) r e] by simp
  moreover have "server_of (Time cfg ''GET'' clk s) = Some ?s1"
    using Time_server RefreshStatus_expired_server [OF assms(1) r e] by simp
  moreover have "state ?s1 = StateStopped" by simp
  moreover have "mode ?s1 \<noteq> mode s" by simp
  ultimately show "\<exists>s1. nextMode cfg (s\<lparr>state := StateStopped\<rparr>) = Inr s1 \<and>
                  server_of (Status cfg ''GET'' accept_json clk s) = Some s1 \<and>
                  server_of (Time cfg ''GET'' clk s) = Some s1 \<and>
                  state s1 = StateStopped \<and> mode s1 \<noteq> mode s"
    by blast
qed

text \<open>A work interval running until the instant 100: a query at 100 changes nothing, a
  query at 101 ends the interval.\<close>

theorem status_query_changes_only_on_expiry_witness:
  "known_mode (mode \<lparr>mode = ModeWork, state = StateRunning, t = 100, d = 0, count = 0\<rparr>) \<and>
   known_state (state \<lparr>mode = ModeWork, state = StateRunning, t = 100, d = 0, count = 0\<rparr>) \<and>
   \<not> (t \<lparr>mode = ModeWork, state = StateRunning, t = 100, d = 0, count = 0\<rparr> < now_after (at 100)) \<and>
   server_of (Status default_config ''GET'' True (at 100)
                \<lparr>mode = ModeWork, state = StateRunning, t = 100, d = 0, count = 0\<rparr>) =
     Some \<lparr>mode = ModeWork, state = StateRunning, t = 100, d = 0, count = 0\<rparr> \<and>
   server_of (Time default_config ''GET'' (at 100)
                \<lparr>mode = ModeWork, state = StateRunning, t = 100, d = 0, count = 0\<rparr>) =
     Some \<lparr>mode = ModeWork, state = StateRunning, t = 100, d = 0, count = 0\<rparr> \<and>
   t \<lparr>mode = ModeWork, state = StateRunning, t = 100, d = 0, count = 0\<rparr> < now_after (at 101) \<and>
   server_of (Time default_config ''GET'' (at 101)
                \<lparr>mode = ModeWork, state = StateRunning, t = 100, d = 0, count = 0\<rparr>) =
     Some \<lparr>mode = ModeShortBreak, state = StateStopped, t = 100, d = 0, count = 1\<rparr>"
  using status_query_changes_only_on_expiry
    [of "\<lparr>mode = ModeWork, state = StateRunning, t = 100, d = 0, count = 0\<rparr>"
        "''GET''" "at 100" default_config True]
    status_query_changes_only_on_expiry
    [of "\<lparr>mode = ModeWork, state = StateRunning, t = 100, d = 0, count = 0\<rparr>"
        "''GET''" "at 101" default_config True]
  by (auto simp: at_def nextMode_def go_int_def default_config_def)

text \<open>The claim as stated, that a status query leaves all fields unchanged in every state,
  fails for a running timer whose deadline has passed.\<close>

theorem status_query_counterexample:
  "server_of (Status default_config ''GET'' False (at 101)
                \<lparr>mode = ModeWork, state = StateRunning, t = 100, d = 0, count = 0\<rparr>) =
     Some \<lparr>mode = ModeShortBreak, state = StateStopped, t = 100, d = 0, count = 1\<rparr> \<and>
   server_of (Status default_config ''GET'' False (at 101)
                \<lparr>mode = ModeWork, state = StateRunning, t = 100, d = 0, count = 0\<rparr>) \<noteq>
     Some \<lparr>mode = ModeWork, state = StateRunning, t = 100, d = 0, count = 0\<rparr>"
proof -
  let ?s = "\<lparr>mode = ModeWork, state = StateRunning, t = 100, d = 0, count = 0\<rparr>"
  have "server_of (Status default_config ''GET'' False (at 101) ?s) =
        server_of (RefreshStatus default_config True (at 101) ?s)"
    by (rule Status_server) simp_all
  also have "\<dots> = Some \<lparr>mode = ModeShortBreak, state = StateStopped, t = 100, d = 0, count = 1\<rparr>"
    using RefreshStatus_expired_server [of ?s "at 101" default_config True]
    by (simp add: at_def go_int_def default_config_def)
  finally show ?thesis by simp
qed

subsection \<open>C5: passive refresh of a running timer\<close>

text \<open>
  C5 (as the code has it). For a running timer, one call of \<open>RefreshStatus\<close> that runs
  alone and reads the clock strictly after the deadline sets the state to stopped,
  advances the mode with \<open>nextMode\<close>, and calls \<open>executeCommand\<close> first among its events,
  which runs the command when one is configured. Leaving work increments the count as
  \<open>s.count++\<close> does: by one for every count that is an \<open>int\<close> below the largest, and the
  mode is then chosen by the new count. Leaving the long break sets the count to 0,
  leaving the short break keeps it. Read at an instant not after the deadline, the
  deadline itself included, the call leaves the server as it is and runs no command.
\<close>

theorem RefreshStatus_running:
  assumes "state s = StateRunning" and "known_mode (mode s)"
  shows "(t s < now_after clk \<longrightarrow>
            (\<exists>s1 str evs.
               nextMode cfg (s\<lparr>state := StateStopped\<rparr>) = Inr s1 \<and>
               RefreshStatus cfg output clk s = Inr (str, executeCommand cfg @ evs, s1) \<and>
               state s1 = StateStopped \<and>
               mode s1 = (if mode s = ModeWork
                          then (if go_int (count s + 1) < N cfg then ModeShortBreak
                                else ModeLongBreak)
                          else ModeWork) \<and>
               count s1 = (if mode s = ModeWork then go_int (count s + 1)
                           else if mode s = ModeLongBreak then 0 else count s) \<and>
               (minInt \<le> count s \<and> count s < maxInt \<longrightarrow>
                  go_int (count s + 1) = count s + 1) \<and>
               t s1 = t s \<and> d s1 = d s \<and>
               (Command cfg \<noteq> [] \<longrightarrow> executeCommand cfg = [Exec (Command cfg)]))) \<and>
         (now_after clk \<le> t s \<longrightarrow>
            (\<exists>str evs.
               RefreshStatus cfg output clk s = Inr (str, evs, s) \<and>
               (\<forall>c. Exec c \<notin> set evs)))"
proof (intro conjI impI)
  assume e: "t s < now_after clk"
  let ?s1 = "s\<lparr>state := StateStopped,
            count := (if mode s = ModeWork then go_int (count s + 1)
                      else if mode s = ModeLongBreak then 0 else count s),
            mode := (if mode s = ModeWork
                     then (if go_int (count s + 1) < N cfg then ModeShortBreak
                           else ModeLongBreak)
                     else ModeWork)\<rparr>"
  have n: "nextMode cfg (s\<lparr>state := StateStopped\<rparr>) = Inr ?s1"
    by (rule nextMode_stopped [OF assms(2)])
  obtain str evs where
    r: "RefreshStatus cfg output clk s = Inr (str, executeCommand cfg @ evs, ?s1)"
    using RefreshStatus_expired [OF assms(2,1) e n, of "output"] by blast
  have c: "Command cfg \<noteq> [] \<longrightarrow> executeCommand cfg = [Exec (Command cfg)]"
    by (simp add: executeCommand_def)
  have w: "minInt \<le> count s \<and> count s < maxInt \<longrightarrow> go_int (count s + 1) = count s + 1"
    by (simp add: go_int_succ)
  have f: "state ?s1 = StateStopped" "t ?s1 = t s" "d ?s1 = d s"
    "mode ?s1 = (if mode s = ModeWork
                 then (if go_int (count s + 1) < N cfg then ModeShortBreak else ModeLongBreak)
                 else ModeWork)"
    "count ?s1 = (if mode s = ModeWork then go_int (count s + 1)
                  else if mode s = ModeLongBreak then 0 else count s)"
    by simp_all
  show "\<exists>s1 str evs.
               nextMode cfg (s\<lparr>state := StateStopped\<rparr>) = Inr s1 \<and>
               RefreshStatus cfg output clk s = Inr (str, executeCommand cfg @ evs, s1) \<and>
               state s1 = StateStopped \<and>
               mode s1 = (if mode s = ModeWork
                          then (if go_int (count s + 1) < N cfg then ModeShortBreak
                                else ModeLongBreak)
                          else ModeWork) \<and>
               count s1 = (if mode s = ModeWork then go_int (count s + 1)
                           else if mode s = ModeLongBreak then 0 else count s) \<and>
               (minInt \<le> count s \<and> count s < maxInt \<longrightarrow>
                  go_int (count s + 1) = count s + 1) \<and>
               t s1 = t s \<and> d s1 = d s \<and>
               (Command cfg \<noteq> [] \<longrightarrow> executeCommand cfg = [Exec (Command cfg)])"
    using n r c w f by (intro exI [of _ ?s1] exI [of _ str] exI [of _ evs] conjI)
next
  assume "now_after clk \<le> t s"
  then have idle: "\<not> (state s = StateRunning \<and> t s < now_after clk)" by simp
  have st: "known_state (state s)" by (simp add: assms(1))
  obtain str evs where r: "RefreshStatus cfg output clk s = Inr (str, evs, s)"
    using RefreshStatus_idle [OF assms(2) st idle] by blast
  then have "outputStatus cfg output clk s = Inr (str, evs)"
    using idle by (auto simp: RefreshStatus_def time_After_def split: sum.splits)
  then have "\<forall>c. Exec c \<notin> set evs"
    using outputStatus_no_Exec by blast
  with r show "\<exists>str evs. RefreshStatus cfg output clk s = Inr (str, evs, s) \<and>
               (\<forall>c. Exec c \<notin> set evs)"
    by blast
qed

text \<open>With a command configured: the refresh at 101 of an interval running until 100 runs
  it and stops the timer, the refresh at 99 changes nothing.\<close>

theorem RefreshStatus_running_witness:
  "state \<lparr>mode = ModeWork, state = StateRunning, t = 100, d = 0, count = 0\<rparr> = StateRunning \<and>
   known_mode (mode \<lparr>mode = ModeWork, state = StateRunning, t = 100, d = 0, count = 0\<rparr>) \<and>
   t \<lparr>mode = ModeWork, state = StateRunning, t = 100, d = 0, count = 0\<rparr> < now_after (at 101) \<and>
   (\<exists>str evs.
      RefreshStatus (default_config\<lparr>Command := ''say done''\<rparr>) False (at 101)
          \<lparr>mode = ModeWork, state = StateRunning, t = 100, d = 0, count = 0\<rparr> =
        Inr (str, Exec ''say done'' # evs,
             \<lparr>mode = ModeShortBreak, state = StateStopped, t = 100, d = 0, count = 1\<rparr>)) \<and>
   now_after (at 99) \<le> t \<lparr>mode = ModeWork, state = StateRunning, t = 100, d = 0, count = 0\<rparr> \<and>
   (\<exists>str evs.
      RefreshStatus (default_config\<lparr>Command := ''say done''\<rparr>) False (at 99)
          \<lparr>mode = ModeWork, state = StateRunning, t = 100, d = 0, count = 0\<rparr> =
        Inr (str, evs, \<lparr>mode = ModeWork, state = StateRunning, t = 100, d = 0, count = 0\<rparr>))"
proof -
  let ?s = "\<lparr>mode = ModeWork, state = StateRunning, t = 100, d = 0, count = 0\<rparr>"
  let ?cfg = "default_config\<lparr>Command := ''say done''\<rparr>"
  have a: "state ?s = StateRunning" and b: "known_mode (mode ?s)" by simp_all
  have c: "t ?s < now_after (at 101)" and e: "now_after (at 99) \<le> t ?s"
    by (simp_all add: at_def)
  have "\<exists>str evs. RefreshStatus ?cfg False (at 101) ?s =
        Inr (str, Exec ''say done'' # evs,
             \<lparr>mode = ModeShortBreak, state = StateStopped, t = 100, d = 0, count = 1\<rparr>)"
    using RefreshStatus_running [OF a b, of "at 101" ?cfg False] c
    by (auto simp: default_config_def nextMode_def go_int_def)
  moreover have "\<exists>str evs. RefreshStatus ?cfg False (at 99) ?s = Inr (str, evs, ?s)"
    using RefreshStatus_running [OF a b, of "at 99" ?cfg False] e by blast
  ultimately show ?thesis using a b c e by blast
qed

text \<open>The claim as stated, with \<open>now \<ge> deadline\<close>, fails at \<open>now = deadline\<close>:
  \<open>time.Now().After(s.t)\<close> is false there and the timer keeps running.\<close>

theorem RefreshStatus_at_deadline_counterexample:
  "state \<lparr>mode = ModeWork, state = StateRunning, t = 100, d = 0, count = 0\<rparr> = StateRunning \<and>
   t \<lparr>mode = ModeWork, state = StateRunning, t = 100, d = 0, count = 0\<rparr> \<le> now_after (at 100) \<and>
   server_of (RefreshStatus default_config False (at 100)
                \<lparr>mode = ModeWork, state = StateRunning, t = 100, d = 0, count = 0\<rparr>) =
     Some \<lparr>mode = ModeWork, state = StateRunning, t = 100, d = 0, count = 0\<rparr> \<and>
   StateRunning \<noteq> StateStopped"
  using RefreshStatus_idle_server
    [of "\<lparr>mode = ModeWork, state = StateRunning, t = 100, d = 0, count = 0\<rparr>"
        "at 100" default_config False]
  by (simp add: at_def)

subsection \<open>C6: the displayed duration\<close>

text \<open>
  C6. For every server with one of the three modes and one of the three states, and every
  instant \<open>now\<close>, \<open>Server.formatTimer\<close> returns the string of a duration: the duration
  configured for the current mode (\<open>DurationWork\<close>, \<open>DurationShortBreak\<close> or
  \<open>DurationLongBreak\<close>) when stopped; the stored remaining duration \<open>d\<close> when paused; the
  deadline \<open>t\<close> minus \<open>now\<close> when running. What is shown of it is floored at zero (\<open>nat\<close>
  of a negative number is 0): the whole minutes, at most 99, as two digits, the separator
  of the mode, and the whole seconds left as two digits. The difference is \<open>Time.Sub\<close>,
  which is the plain difference whenever that fits a \<open>Duration\<close>; at and after the
  deadline the string is that of zero.
\<close>

theorem displayed_duration:
  assumes "known_mode (mode s)" and "known_state (state s)"
  shows
    "Server_formatTimer cfg now s =
       Inr (let shown = nat (if state s = StateStopped then
                               (if mode s = ModeWork then DurationWork cfg
                                else if mode s = ModeShortBreak then DurationShortBreak cfg
                                else DurationLongBreak cfg)
                             else if state s = StatePaused then d s
                             else time_Sub (t s) now);
                m = min 99 (shown div 60000000000);
                sec = shown mod 60000000000 div 1000000000
            in [digit_char (m div 10), digit_char (m mod 10)] @
               (if mode s = ModeWork then SepColon cfg else SepBreak cfg) @
               [digit_char (sec div 10), digit_char (sec mod 10)]) \<and>
     (minDuration \<le> t s - now \<and> t s - now \<le> maxDuration \<longrightarrow>
        time_Sub (t s) now = t s - now) \<and>
     (t s \<le> now \<longrightarrow> nat (time_Sub (t s) now) = 0)"
proof -
  let ?sep = "if mode s = ModeWork then SepColon cfg else SepBreak cfg"
  let ?dur = "if mode s = ModeWork then DurationWork cfg
              else if mode s = ModeShortBreak then DurationShortBreak cfg
              else DurationLongBreak cfg"
  have sep: "Mode_Sep cfg (mode s) = Inr ?sep" by (rule Mode_Sep_known [OF assms(1)])
  have dur: "Mode_Duration cfg (mode s) = Inr ?dur"
    using assms(1) by (auto simp: Mode_Duration_def known_mode_def)
  have "Server_formatTimer cfg now s =
      Inr (formatTimer (if state s = StateStopped then ?dur
                        else if state s = StatePaused then d s
                        else time_Sub (t s) now) ?sep)"
    using assms(2) by (auto simp: Server_formatTimer_def sep dur known_state_def)
  then have a: "Server_formatTimer cfg now s =
       Inr (let shown = nat (if state s = StateStopped then ?dur
                             else if state s = StatePaused then d s
                             else time_Sub (t s) now);
                m = min 99 (shown div 60000000000);
                sec = shown mod 60000000000 div 1000000000
            in [digit_char (m div 10), digit_char (m mod 10)] @ ?sep @
               [digit_char (sec div 10), digit_char (sec mod 10)])"
    by (simp add: formatTimer_digits Let_def)
  have b: "minDuration \<le> t s - now \<and> t s - now \<le> maxDuration \<longrightarrow>
        time_Sub (t s) now = t s - now"
    by (simp add: time_Sub_def)
  have c: "t s \<le> now \<longrightarrow> nat (time_Sub (t s) now) = 0"
    by (simp add: time_Sub_def minDuration_def maxDuration_def)
  from a b c show ?thesis by blast
qed

text \<open>A short break of five minutes with the separator \<open>-\<close>: stopped; paused with 83.5
  seconds left; running 24 minutes 59.9 seconds before the deadline; running at the
  deadline.\<close>

theorem displayed_duration_witness:
  "known_mode ModeShortBreak \<and> known_state StateStopped \<and> known_state StatePaused \<and>
   known_state StateRunning \<and>
   Server_formatTimer (default_config\<lparr>SepBreak := ''-''\<rparr>) 0
       \<lparr>mode = ModeShortBreak, state = StateStopped, t = 100, d = 7, count = 1\<rparr> =
     Inr ''05-00'' \<and>
   Server_formatTimer (default_config\<lparr>SepBreak := ''-''\<rparr>) 0
       \<lparr>mode = ModeShortBreak, state = StatePaused, t = 100, d = 83500000000, count = 1\<rparr> =
     Inr ''01-23'' \<and>
   Server_formatTimer (default_config\<lparr>SepBreak := ''-''\<rparr>) 100000000
       \<lparr>mode = ModeShortBreak, state = StateRunning, t = 1500000000000, d = 7, count = 1\<rparr> =
     Inr ''24-59'' \<and>
   minDuration \<le> 1500000000000 - 100000000 \<and> 1500000000000 - 100000000 \<le> maxDuration \<and>
   time_Sub 1500000000000 100000000 = 1500000000000 - 100000000 \<and>
   Server_formatTimer (default_config\<lparr>SepBreak := ''-''\<rparr>) 1500000000000
       \<lparr>mode = ModeShortBreak, state = StateRunning, t = 1500000000000, d = 7, count = 1\<rparr> =
     Inr ''00-00''"
proof -
  let ?cfg = "default_config\<lparr>SepBreak := ''-''\<rparr>"
  have k: "known_mode ModeShortBreak" "known_state StateStopped" "known_state StatePaused"
    "known_state StateRunning"
    by simp_all
  have r: "minDuration \<le> 1500000000000 - 100000000" "1500000000000 - 100000000 \<le> maxDuration"
    by (simp_all add: minDuration_def maxDuration_def)
  have a: "Server_formatTimer ?cfg 0
       \<lparr>mode = ModeShortBreak, state = StateStopped, t = 100, d = 7, count = 1\<rparr> = Inr ''05-00''"
    using displayed_duration
      [of "\<lparr>mode = ModeShortBreak, state = StateStopped, t = 100, d = 7, count = 1\<rparr>" ?cfg 0]
    by (simp add: default_config_def Minute_def Second_def digit_char_def)
  have b: "Server_formatTimer ?cfg 0
       \<lparr>mode = ModeShortBreak, state = StatePaused, t = 100, d = 83500000000, count = 1\<rparr> =
     Inr ''01-23''"
    using displayed_duration
      [of "\<lparr>mode = ModeShortBreak, state = StatePaused, t = 100, d = 83500000000, count = 1\<rparr>"
          ?cfg 0]
    by (simp add: default_config_def digit_char_def)
  have c: "Server_formatTimer ?cfg 100000000
       \<lparr>mode = ModeShortBreak, state = StateRunning, t = 1500000000000, d = 7, count = 1\<rparr> =
     Inr ''24-59'' \<and> time_Sub 1500000000000 100000000 = 1500000000000 - 100000000"
    using displayed_duration
      [of "\<lparr>mode = ModeShortBreak, state = StateRunning, t = 1500000000000, d = 7, count = 1\<rparr>"
          ?cfg 100000000] r
    by (simp add: default_config_def digit_char_def)
  have e: "Server_formatTimer ?cfg 1500000000000
       \<lparr>mode = ModeShortBreak, state = StateRunning, t = 1500000000000, d = 7, count = 1\<rparr> =
     Inr ''00-00''"
    using displayed_duration
      [of "\<lparr>mode = ModeShortBreak, state = StateRunning, t = 1500000000000, d = 7, count = 1\<rparr>"
          ?cfg 1500000000000]
    by (simp add: default_config_def digit_char_def)
  from k r a b c e show ?thesis by blast
qed

subsection \<open>C7: pausing twice\<close>

text \<open>
  C7. A running timer is paused, resumed and paused again, each time by
  \<open>POST /action/start\<close>; ticks and status queries may come in between. When the clock
  read at the second pause is not before the clock read at the resume, the remaining
  duration \<open>d\<close> stored by the second pause is at most the one stored by the first.
\<close>

theorem pause_resume_pause_no_refund:
  assumes "state s0 = StateRunning"
    and "server_of (ActionStart cfg ''POST'' c1 s0) = Some s1" and "state s1 = StatePaused"
    and "list_all refresh_only cs1" and "run cfg cs1 s1 = Inr s1'"
    and "server_of (ActionStart cfg ''POST'' c2 s1') = Some s2"
    and "list_all refresh_only cs2" and "run cfg cs2 s2 = Inr s2'"
    and "server_of (ActionStart cfg ''POST'' c3 s2') = Some s3" and "state s3 = StatePaused"
    and "now_start c2 \<le> now_start c3"
  shows "d s3 \<le> d s1"
proof -
  have d1: "d s1 = time_Sub (t s0) (now_start c1)"
    using ActionStart_pauses [OF assms(2,3)] by simp
  have "s1' = s1"
    using passive_run [OF assms(4,5)] assms(3) by auto
  then have s2: "s2 = s1\<lparr>t := now_start c2 + d s1, state := StateRunning\<rparr>"
    using ActionStart_resumes [OF assms(6)] assms(3) by simp
  have p3: "state s2' = StateRunning"
      "s3 = s2'\<lparr>d := time_Sub (t s2') (now_start c3), state := StatePaused\<rparr>"
    using ActionStart_pauses [OF assms(9,10)] by simp_all
  have "s2' = s2"
    using passive_run [OF assms(7,8)] p3(1) by auto
  then have "d s3 = time_Sub (now_start c2 + d s1) (now_start c3)"
    using p3(2) s2 by simp
  also have "\<dots> \<le> d s1"
    using time_Sub_range [of "t s0" "now_start c1"] assms(11)
    by (intro time_Sub_later) (simp_all add: d1)
  finally show ?thesis .
qed

text \<open>Paused at 400 with 600 ns left, resumed at 500, paused again at 700 with 400 ns
  left.\<close>

theorem pause_resume_pause_no_refund_witness:
  "state \<lparr>mode = ModeWork, state = StateRunning, t = 1000, d = 0, count = 0\<rparr> = StateRunning \<and>
   server_of (ActionStart default_config ''POST'' (at 400)
       \<lparr>mode = ModeWork, state = StateRunning, t = 1000, d = 0, count = 0\<rparr>) =
     Some \<lparr>mode = ModeWork, state = StatePaused, t = 1000, d = 600, count = 0\<rparr> \<and>
   list_all refresh_only [Tick (at 450), GetStatus ''GET'' True (at 460)] \<and>
   run default_config [Tick (at 450), GetStatus ''GET'' True (at 460)]
       \<lparr>mode = ModeWork, state = StatePaused, t = 1000, d = 600, count = 0\<rparr> =
     Inr \<lparr>mode = ModeWork, state = StatePaused, t = 1000, d = 600, count = 0\<rparr> \<and>
   server_of (ActionStart default_config ''POST'' (at 500)
       \<lparr>mode = ModeWork, state = StatePaused, t = 1000, d = 600, count = 0\<rparr>) =
     Some \<lparr>mode = ModeWork, state = StateRunning, t = 1100, d = 600, count = 0\<rparr> \<and>
   list_all refresh_only [GetTime ''GET'' (at 600), Tick (at 650)] \<and>
   run default_config [GetTime ''GET'' (at 600), Tick (at 650)]
       \<lparr>mode = ModeWork, state = StateRunning, t = 1100, d = 600, count = 0\<rparr> =
     Inr \<lparr>mode = ModeWork, state = StateRunning, t = 1100, d = 600, count = 0\<rparr> \<and>
   server_of (ActionStart default_config ''POST'' (at 700)
       \<lparr>mode = ModeWork, state = StateRunning, t = 1100, d = 600, count = 0\<rparr>) =
     Some \<lparr>mode = ModeWork, state = StatePaused, t = 1100, d = 400, count = 0\<rparr> \<and>
   now_start (at 500) \<le> now_start (at 700) \<and>
   d \<lparr>mode = ModeWork, state = StatePaused, t = 1100, d = 400, count = 0\<rparr>
     \<le> d \<lparr>mode = ModeWork, state = StatePaused, t = 1000, d = 600, count = 0\<rparr>"
proof -
  let ?s0 = "\<lparr>mode = ModeWork, state = StateRunning, t = 1000, d = 0, count = 0\<rparr>"
  let ?s1 = "\<lparr>mode = ModeWork, state = StatePaused, t = 1000, d = 600, count = 0\<rparr>"
  let ?s2 = "\<lparr>mode = ModeWork, state = StateRunning, t = 1100, d = 600, count = 0\<rparr>"
  let ?s3 = "\<lparr>mode = ModeWork, state = StatePaused, t = 1100, d = 400, count = 0\<rparr>"
  have h1: "state ?s0 = StateRunning" by simp
  have h2: "server_of (ActionStart default_config ''POST'' (at 400) ?s0) = Some ?s1"
    by (simp add: model_defs)
  have h3: "state ?s1 = StatePaused" by simp
  have h4: "list_all refresh_only [Tick (at 450), GetStatus ''GET'' True (at 460)]" by simp
  have h5: "run default_config [Tick (at 450), GetStatus ''GET'' True (at 460)] ?s1 = Inr ?s1"
    by (simp add: model_defs)
  have h6: "server_of (ActionStart default_config ''POST'' (at 500) ?s1) = Some ?s2"
    by (simp add: model_defs)
  have h7: "list_all refresh_only [GetTime ''GET'' (at 600), Tick (at 650)]" by simp
  have h8: "run default_config [GetTime ''GET'' (at 600), Tick (at 650)] ?s2 = Inr ?s2"
    by (simp add: model_defs)
  have h9: "server_of (ActionStart default_config ''POST'' (at 700) ?s2) = Some ?s3"
    by (simp add: model_defs)
  have h10: "state ?s3 = StatePaused" by simp
  have h11: "now_start (at 500) \<le> now_start (at 700)" by (simp add: at_def)
  from pause_resume_pause_no_refund [OF h1 h2 h3 h4 h5 h6 h7 h8 h9 h10 h11]
  have "d ?s3 \<le> d ?s1" .
  with h1 h2 h4 h5 h6 h7 h8 h9 h11 show ?thesis by blast
qed

subsection \<open>C8: the timer string\<close>

text \<open>
  C8. For every duration, \<open>formatTimer\<close> returns two characters for the minutes, the
  separator it was given and two characters for the seconds. The minutes are the whole
  minutes of the duration, at most 99; the seconds are the whole seconds left, at most 59;
  all four characters are decimal digits. A negative duration is shown as zero (\<open>nat x\<close>
  is 0 for a negative \<open>x\<close>). \<open>Server.formatTimer\<close> passes the separator of the current
  mode: \<open>SepColon\<close> for work, \<open>SepBreak\<close> for both breaks. A minute is 60000000000
  nanoseconds, a second 1000000000.
\<close>

theorem formatTimer_clamped_two_digits:
  "(let m = min 99 (nat x div 60000000000); s = nat x mod 60000000000 div 1000000000
    in formatTimer x sep =
         [digit_char (m div 10), digit_char (m mod 10)] @ sep @
         [digit_char (s div 10), digit_char (s mod 10)] \<and>
       m \<le> 99 \<and> s \<le> 59 \<and>
       set [digit_char (m div 10), digit_char (m mod 10),
            digit_char (s div 10), digit_char (s mod 10)] \<subseteq> set ''0123456789'') \<and>
   (x < 0 \<longrightarrow> formatTimer x sep = ''00'' @ sep @ ''00'') \<and>
   (known_mode (mode srv) \<and> known_state (state srv) \<longrightarrow>
      (\<exists>dur. Server_formatTimer cfg now srv =
         Inr (formatTimer dur (if mode srv = ModeWork then SepColon cfg else SepBreak cfg))))"
proof -
  define m where "m = min 99 (nat x div 60000000000)"
  define s where "s = nat x mod 60000000000 div 1000000000"
  have m: "m \<le> 99" by (simp add: m_def)
  have s: "s \<le> 59" unfolding s_def by (rule seconds_bound)
  have shape: "formatTimer x sep =
         [digit_char (m div 10), digit_char (m mod 10)] @ sep @
         [digit_char (s div 10), digit_char (s mod 10)]"
    using formatTimer_digits [of x sep] by (simp add: Let_def m_def s_def)
  have "m div 10 < 10" "m mod 10 < 10" "s div 10 < 10" "s mod 10 < 10"
    using m s by simp_all
  then have "digit_char (m div 10) \<in> set ''0123456789''"
    and "digit_char (m mod 10) \<in> set ''0123456789''"
    and "digit_char (s div 10) \<in> set ''0123456789''"
    and "digit_char (s mod 10) \<in> set ''0123456789''"
    by (simp_all only: digit_char_is_digit)
  then have dig: "set [digit_char (m div 10), digit_char (m mod 10),
            digit_char (s div 10), digit_char (s mod 10)] \<subseteq> set ''0123456789''"
    by simp
  have neg: "formatTimer x sep = ''00'' @ sep @ ''00''" if "x < 0"
  proof -
    from that have "nat x = 0" by simp
    then show ?thesis
      using formatTimer_digits [of x sep] by (simp add: Let_def digit_char_def)
  qed
  have srv: "\<exists>dur. Server_formatTimer cfg now srv =
         Inr (formatTimer dur (if mode srv = ModeWork then SepColon cfg else SepBreak cfg))"
    if k: "known_mode (mode srv)" and st: "known_state (state srv)"
  proof -
    obtain y where y: "Mode_Duration cfg (mode srv) = Inr y"
      using Mode_Duration_known [OF k] by blast
    show ?thesis
      using st unfolding known_state_def Server_formatTimer_def Mode_Sep_known [OF k] y
      by auto
  qed
  show ?thesis
    using shape m s dig neg srv by (simp add: Let_def m_def [symmetric] s_def [symmetric])
qed

text \<open>101 minutes minus one nanosecond are shown as 99 minutes 59 seconds; minus five
  nanoseconds as zero; the fresh server uses the colon of the work mode.\<close>

theorem formatTimer_clamped_two_digits_witness:
  "formatTimer 6059999999999 ''x'' = ''99x59'' \<and>
   (- 5 < (0::int) \<and> formatTimer (- 5) '':'' = ''00:00'') \<and>
   (known_mode (mode NewServer) \<and> known_state (state NewServer) \<and>
    (\<exists>dur. Server_formatTimer default_config 0 NewServer = Inr (formatTimer dur '':'')))"
proof -
  have a: "formatTimer 6059999999999 ''x'' = ''99x59''"
    using formatTimer_clamped_two_digits [of 6059999999999 "''x''" NewServer default_config 0]
    by (simp add: Let_def digit_char_def)
  have b: "formatTimer (- 5) '':'' = ''00:00''"
    using formatTimer_clamped_two_digits [of "- 5" "'':''" NewServer default_config 0]
    by (simp add: digit_char_def)
  have k: "known_mode (mode NewServer) \<and> known_state (state NewServer)"
    by (simp add: NewServer_def known_mode_def known_state_def)
  have c: "\<exists>dur. Server_formatTimer default_config 0 NewServer = Inr (formatTimer dur '':'')"
    using formatTimer_clamped_two_digits [of 0 "[]" NewServer default_config 0] k
    by (simp add: NewServer_def default_config_def)
  show ?thesis using a b k c by simp
qed

subsection \<open>C9: the same update twice\<close>

text \<open>
  C9 (as the code has it). Two invocations of \<open>doRequest\<close> with the same text and icon,
  the second started after the first has returned, send at most one request. The second
  never sends and returns \<open>nil\<close>. The first sends exactly when the text or the icon
  differs from \<open>lastText\<close>, \<open>lastIcon\<close> as they were before it; when both are equal,
  neither invocation sends. Afterwards the two variables hold the pair, whatever the
  server answered, so a further invocation with the pair sends nothing either. The URL
  has to parse for the first invocation to send. Invocations that overlap are not part of
  this statement (\<open>doRequest_overlapping_sends_twice\<close> shows what they can do).
\<close>

theorem doRequest_twice_sends_at_most_once:
  assumes "url_parses nw1 \<or> (text = lastText st \<and> iconData = lastIcon st)"
  shows "\<exists>r1 st2.
     doRequest_twice cfg nw1 nw2 text iconData st =
       Inr ((r1, None),
            (if text = lastText st \<and> iconData = lastIcon st then []
             else [HttpGet (URL cfg) (UUID cfg) text iconData]),
            st2) \<and>
     lastText st2 = text \<and> lastIcon st2 = iconData \<and>
     doRequest cfg nw2 text iconData st2 = Inr (None, [], st2)"
proof (cases "text = lastText st \<and> iconData = lastIcon st")
  case True
  then have "doRequest cfg nw1 text iconData st = Inr (None, [], st)"
    and "doRequest cfg nw2 text iconData st = Inr (None, [], st)"
    by (simp_all add: doRequest_same)
  then show ?thesis using True by (simp add: doRequest_twice_def)
next
  case False
  with assms have "url_parses nw1" by blast
  from doRequest_new [OF False this, of cfg]
  obtain r where r: "doRequest cfg nw1 text iconData st =
           Inr (r, [HttpGet (URL cfg) (UUID cfg) text iconData],
                st\<lparr>lastText := text, lastIcon := iconData\<rparr>)"
    by blast
  let ?st1 = "st\<lparr>lastText := text, lastIcon := iconData\<rparr>"
  have "doRequest cfg nw2 text iconData ?st1 = Inr (None, [], ?st1)"
    by (rule doRequest_same) simp_all
  then show ?thesis using False r by (simp add: doRequest_twice_def)
qed

text \<open>The first update after the start is sent once, though the second attempt would have
  timed out.\<close>

theorem doRequest_twice_sends_at_most_once_witness:
  "url_parses \<lparr>url_parses = True, reply = GetStatusCode 200 ''200 OK''\<rparr> \<and>
   (\<exists>r1 st2.
      doRequest_twice push_config
          \<lparr>url_parses = True, reply = GetStatusCode 200 ''200 OK''\<rparr>
          \<lparr>url_parses = True, reply = GetFailed ''timeout''\<rparr>
          ''25:00'' ''cmVk'' initial_notifier =
        Inr ((r1, None),
             [HttpGet ''http://127.0.0.1:12345/update_touch_bar_widget/'' ''W'' ''25:00'' ''cmVk''],
             st2) \<and>
      lastText st2 = ''25:00'' \<and> lastIcon st2 = ''cmVk'')"
  using doRequest_twice_sends_at_most_once
    [of "\<lparr>url_parses = True, reply = GetStatusCode 200 ''200 OK''\<rparr>"
        "''25:00''" initial_notifier "''cmVk''" push_config
        "\<lparr>url_parses = True, reply = GetFailed ''timeout''\<rparr>"]
  by (auto simp: initial_notifier_def push_config_def default_config_def)

text \<open>The claim as stated, exactly one request for every two consecutive invocations with
  the same pair, fails when the pair has been sent before: after a first invocation has
  sent it, the second and the third are two consecutive invocations with the same pair
  and send nothing.\<close>

theorem doRequest_already_sent_counterexample:
  "doRequest push_config \<lparr>url_parses = True, reply = GetStatusCode 200 ''200 OK''\<rparr>
       ''25:00'' ''cmVk'' initial_notifier =
     Inr (None,
          [HttpGet ''http://127.0.0.1:12345/update_touch_bar_widget/'' ''W'' ''25:00'' ''cmVk''],
          \<lparr>lastText = ''25:00'', lastIcon = ''cmVk''\<rparr>) \<and>
   doRequest_twice push_config
       \<lparr>url_parses = True, reply = GetStatusCode 200 ''200 OK''\<rparr>
       \<lparr>url_parses = True, reply = GetStatusCode 200 ''200 OK''\<rparr>
       ''25:00'' ''cmVk'' \<lparr>lastText = ''25:00'', lastIcon = ''cmVk''\<rparr> =
     Inr ((None, None), [], \<lparr>lastText = ''25:00'', lastIcon = ''cmVk''\<rparr>) \<and>
   length ([] :: sent list) \<noteq> 1"
  by (simp add: doRequest_twice_def doRequest_def initial_notifier_def push_config_def
        default_config_def)

subsection \<open>C10: the branches that panic\<close>

text \<open>Taken one after the other, the calls never reach a \<open>panic("unexpected")\<close>: every
  list of calls on \<open>NewServer\<close> returns, the mode it leaves is one of \<open>work\<close>,
  \<open>short-break\<close>, \<open>long-break\<close> and the state one of \<open>[S]\<close>, \<open>[P]\<close>, \<open>[R]\<close>, and every
  function with such a branch returns there.\<close>

lemma calls_one_by_one_never_panic:
  "\<exists>s. run cfg cs NewServer = Inr s \<and>
        known_mode (mode s) \<and> known_state (state s) \<and>
        (\<exists>x. Mode_Duration cfg (mode s) = Inr x) \<and>
        (\<exists>x. Mode_Sep cfg (mode s) = Inr x) \<and>
        (\<exists>x. Server_formatTimer cfg now s = Inr x) \<and>
        (\<exists>x. nextMode cfg s = Inr x) \<and>
        (\<exists>s1. serve cfg c s = Inr s1)"
proof -
  have i: "known_mode (mode NewServer)" "known_state (state NewServer)"
    using NewServer_known by simp_all
  obtain s where r: "run cfg cs NewServer = Inr s"
    using run_returns [OF i] by blast
  have k: "known_mode (mode s)" and st: "known_state (state s)"
    using run_known [OF r i] by simp_all
  show ?thesis
    using r k st Mode_Duration_known [OF k, of cfg] Mode_Sep_known [OF k, of cfg]
      Server_formatTimer_known [OF k st, of cfg now] nextMode_known [OF k, of cfg]
      serve_returns [OF k st, of cfg c]
    by blast
qed

text \<open>
  C10 (a defect of the code). The program does not take its calls one after the other:
  \<open>main\<close> starts the ticker on a goroutine of its own and \<open>http.ListenAndServe\<close> runs every
  handler on another, all on the one \<open>Server\<close> and without a lock. A Go string is a
  pointer and a length, so a handler that reads \<open>s.mode\<close> while \<open>nextMode\<close>, called by the
  ticker, assigns \<open>ModeShortBreak\<close> over \<open>ModeWork\<close> can see the bytes of the new value
  with the length of the old one: the string \<open>shor\<close>. On that value every switch over
  the mode takes the branch that the claim says is never executed: \<open>Mode.Duration\<close>,
  \<open>Mode.Sep\<close>, \<open>Server.nextMode\<close>, and \<open>Server.formatTimer\<close> in each of the three states.
\<close>

theorem torn_mode_read_panics:
  "take (length ModeWork) ModeShortBreak = ''shor'' \<and>
   \<not> known_mode ''shor'' \<and>
   Mode_Duration cfg ''shor'' = Inl (Panic ''unexpected'') \<and>
   Mode_Sep cfg ''shor'' = Inl (Panic ''unexpected'') \<and>
   nextMode cfg \<lparr>mode = ''shor'', state = st, t = u, d = x, count = c\<rparr> =
     Inl (Panic ''unexpected'') \<and>
   Server_formatTimer cfg now \<lparr>mode = ''shor'', state = StateStopped, t = u, d = x, count = c\<rparr> =
     Inl (Panic ''unexpected'') \<and>
   Server_formatTimer cfg now \<lparr>mode = ''shor'', state = StatePaused, t = u, d = x, count = c\<rparr> =
     Inl (Panic ''unexpected'') \<and>
   Server_formatTimer cfg now \<lparr>mode = ''shor'', state = StateRunning, t = u, d = x, count = c\<rparr> =
     Inl (Panic ''unexpected'')"
proof -
  have m: "''shor'' \<noteq> ModeWork" "''shor'' \<noteq> ModeShortBreak" "''shor'' \<noteq> ModeLongBreak"
    by (simp_all add: ModeWork_def ModeShortBreak_def ModeLongBreak_def)
  have a: "take (length ModeWork) ModeShortBreak = ''shor''"
    by (simp add: ModeWork_def ModeShortBreak_def)
  have b: "Mode_Duration cfg ''shor'' = Inl (Panic ''unexpected'')"
    and c: "Mode_Sep cfg ''shor'' = Inl (Panic ''unexpected'')"
    using m by (simp_all add: Mode_Duration_def Mode_Sep_def)
  show ?thesis
    using m a b c by (simp add: known_mode_def nextMode_def Server_formatTimer_def)
qed

end
